theory Spec2Isabelle
  imports Complex_Main "HOL-Library.Sublist"
begin

section \<open>Scene graph: the data the plugin reads\<close>

text \<open>
  The plugin (\<^verbatim>\<open>src/code.js\<close>) walks the host's scene graph. A scene node is an object with
  an identifier, a type tag, a visibility flag, optional effects, an optional blend mode, a mask
  flag, paints and, for containers, children. Properties that a node kind does not carry
  (\<^verbatim>\<open>'fills' in node\<close> is false, \<^verbatim>\<open>node.effects\<close> is undefined) are modelled as absent values.
  Object identity of nodes is their \<^verbatim>\<open>id\<close>, which the host keeps unique in a document.
\<close>

type_synonym node_id = string

record effect =
  effect_type :: string
  effect_visible :: "bool option"  \<comment> \<open>\<open>None\<close>: the property is undefined\<close>

datatype paint = Paint (paint_visible: "bool option") (paint_color: nat)

datatype paints =
    NoPaints           \<comment> \<open>the node has no such property\<close>
  | Mixed              \<comment> \<open>\<^verbatim>\<open>figma.mixed\<close>\<close>
  | Paints "paint list"

datatype node =
  Node (nid: node_id) (nname: string) (ntype: string) (nvisible: bool)
       (neffects: "effect list option") (nblendMode: "string option") (nisMask: bool)
       (nfills: paints) (nstrokes: paints) (nchildren: "node list option")

section \<open>Rasterization classifier\<close>

definition MUST_RASTERIZE_EFFECTS :: "string list" where
  "MUST_RASTERIZE_EFFECTS = [''LAYER_BLUR'', ''BACKGROUND_BLUR'']"

definition SHOULD_RASTERIZE_EFFECTS :: "string list" where
  "SHOULD_RASTERIZE_EFFECTS = [''DROP_SHADOW'', ''INNER_SHADOW'']"

definition PROBLEMATIC_BLEND_MODES :: "string list" where
  "PROBLEMATIC_BLEND_MODES =
     [''MULTIPLY'', ''SCREEN'', ''OVERLAY'', ''DARKEN'', ''LIGHTEN'', ''COLOR_DODGE'',
      ''COLOR_BURN'', ''HARD_LIGHT'', ''SOFT_LIGHT'', ''DIFFERENCE'', ''EXCLUSION'', ''HUE'',
      ''SATURATION'', ''COLOR'', ''LUMINOSITY'', ''PLUS_DARKER'', ''PLUS_LIGHTER'']"

definition RASTERIZE_EFFECTS :: "string list" where
  "RASTERIZE_EFFECTS = MUST_RASTERIZE_EFFECTS @ SHOULD_RASTERIZE_EFFECTS"

text \<open>\<^verbatim>\<open>x.visible !== false\<close>: an undefined flag counts as visible.\<close>

definition not_false :: "bool option \<Rightarrow> bool" where
  "not_false v = (v \<noteq> Some False)"

definition hasVisiblePaints :: "paints \<Rightarrow> bool" where
  "hasVisiblePaints ps =
     (case ps of Paints l \<Rightarrow> list_ex (\<lambda>p. not_false (paint_visible p)) l | _ \<Rightarrow> False)"

definition nodeHasRenderableSelf :: "node \<Rightarrow> bool" where
  "nodeHasRenderableSelf n =
     (if ntype n = ''TEXT'' then True
      else if hasVisiblePaints (nfills n) then True
      else if hasVisiblePaints (nstrokes n) then True
      else False)"

text \<open>The \<^verbatim>\<open>for\<close> loop of \<^verbatim>\<open>nodeNeedsRaster\<close>: return at the first visible rasterizing effect.\<close>

fun effects_loop :: "effect list \<Rightarrow> bool" where
  "effects_loop [] = False"
| "effects_loop (e # es) =
     (if not_false (effect_visible e) \<and> effect_type e \<in> set RASTERIZE_EFFECTS then True
      else effects_loop es)"

definition blend_problematic :: "string option \<Rightarrow> bool" where
  "blend_problematic b =
     (case b of None \<Rightarrow> False | Some m \<Rightarrow> m \<noteq> [] \<and> m \<in> set PROBLEMATIC_BLEND_MODES)"

definition has_effects :: "effect list option \<Rightarrow> bool" where
  "has_effects es = (case es of None \<Rightarrow> False | Some l \<Rightarrow> 0 < length l)"

definition nodeNeedsRaster :: "node \<Rightarrow> bool" where
  "nodeNeedsRaster n =
     (if has_effects (neffects n) \<and> effects_loop (the (neffects n)) then True
      else if blend_problematic (nblendMode n) then True
      else if nisMask n \<and> has_effects (neffects n) then True
      else False)"

subsection \<open>Layer analysis\<close>

datatype issue =
    CRITICAL_EFFECT string
  | SHADOW_EFFECT string
  | BLEND_MODE string
  | MASKED_EFFECTS

record detail =
  d_name :: string
  d_type :: string
  d_needsRaster :: bool
  d_issues :: "issue list"     \<comment> \<open>stored as \<^verbatim>\<open>issues\<close> when raster, as \<^verbatim>\<open>warnings\<close> otherwise\<close>
  d_depth :: nat

record results =
  totalLayers :: nat
  vectorLayers :: nat
  rasterLayers :: nat
  details :: "detail list"
  hasCriticalEffects :: bool
  frameStrategy :: string

definition initial_results :: results where
  "initial_results =
     \<lparr> totalLayers = 0, vectorLayers = 0, rasterLayers = 0, details = [],
       hasCriticalEffects = False, frameStrategy = ''vector'' \<rparr>"

text \<open>
  One pass of the effect loop of \<^verbatim>\<open>analyzeFrameLayers\<close>. The loop state is
  (\<^verbatim>\<open>layerNeedsRaster\<close>, \<^verbatim>\<open>results.hasCriticalEffects\<close>, \<^verbatim>\<open>layerIssues\<close>). Only an effect of the
  must-rasterize list sets \<^verbatim>\<open>layerNeedsRaster\<close>; a shadow only records an issue.
\<close>

fun effect_step :: "effect \<Rightarrow> bool \<times> bool \<times> issue list \<Rightarrow> bool \<times> bool \<times> issue list" where
  "effect_step e (raster, critical, issues) =
     (if not_false (effect_visible e) then
        (if effect_type e \<in> set MUST_RASTERIZE_EFFECTS
           then (True, True, issues @ [CRITICAL_EFFECT (effect_type e)])
         else if effect_type e \<in> set SHOULD_RASTERIZE_EFFECTS
           then (raster, critical, issues @ [SHADOW_EFFECT (effect_type e)])
         else (raster, critical, issues))
      else (raster, critical, issues))"

text \<open>The analysis of one layer itself (everything before the recursion into the children).\<close>

definition analyze_self :: "node \<Rightarrow> nat \<Rightarrow> results \<Rightarrow> results" where
  "analyze_self n depth r =
     (if ntype n \<noteq> ''DOCUMENT'' \<and> ntype n \<noteq> ''PAGE'' then
        (let r1 = r\<lparr>totalLayers := totalLayers r + 1\<rparr>;
             (raster1, critical1, issues1) =
               (if has_effects (neffects n)
                  then fold effect_step (the (neffects n)) (False, hasCriticalEffects r1, [])
                else (False, hasCriticalEffects r1, []));
             (raster2, issues2) =
               (if blend_problematic (nblendMode n)
                  then (True, issues1 @ [BLEND_MODE (the (nblendMode n))])
                else (raster1, issues1));
             (raster3, issues3) =
               (if nisMask n \<and> has_effects (neffects n)
                  then (True, issues2 @ [MASKED_EFFECTS])
                else (raster2, issues2));
             r2 = r1\<lparr>hasCriticalEffects := critical1\<rparr>
         in if raster3 then
              r2\<lparr>rasterLayers := rasterLayers r2 + 1,
                 details := details r2 @
                   [\<lparr>d_name = nname n, d_type = ntype n, d_needsRaster = True,
                     d_issues = issues3, d_depth = depth\<rparr>]\<rparr>
            else if 0 < length issues3 then
              r2\<lparr>vectorLayers := vectorLayers r2 + 1,
                 details := details r2 @
                   [\<lparr>d_name = nname n, d_type = ntype n, d_needsRaster = False,
                     d_issues = issues3, d_depth = depth\<rparr>]\<rparr>
            else r2\<lparr>vectorLayers := vectorLayers r2 + 1\<rparr>)
      else r)"

definition decide_strategy :: "results \<Rightarrow> results" where
  "decide_strategy r =
     (if rasterLayers r = 0 then r\<lparr>frameStrategy := ''vector''\<rparr>
      else if vectorLayers r = 0 then r\<lparr>frameStrategy := ''raster''\<rparr>
      else r\<lparr>frameStrategy := ''hybrid''\<rparr>)"

fun analyze_rec :: "node \<Rightarrow> nat \<Rightarrow> results \<Rightarrow> results" where
  "analyze_rec (Node i nm ty vis effs bm msk fs ss chs) depth r =
     (let n = Node i nm ty vis effs bm msk fs ss chs;
          r1 = analyze_self n depth r;
          r2 = (case chs of None \<Rightarrow> r1
                | Some cs \<Rightarrow> fold (\<lambda>c acc. analyze_rec c (depth + 1) acc) cs r1)
      in if depth = 0 then decide_strategy r2 else r2)"

definition analyzeFrameLayers :: "node \<Rightarrow> results" where
  "analyzeFrameLayers n = analyze_rec n 0 initial_results"

section \<open>Export strategy decision\<close>

record stats =
  st_vectorLayers :: nat
  st_rasterLayers :: nat
  st_total :: nat

text \<open>The reason strings are templates over the counts; the model keeps template and counts.\<close>

datatype reason =
    AllVectorSafe nat
  | AllRaster nat
  | HybridCritical nat nat
  | HybridFallback nat nat
  | NoProblems
  | CriticalIssues nat
  | ManyIssues nat
  | MinorIssues nat

record old_issue =
  oi_nodeName :: string
  oi_nodeType :: string
  oi_issue :: string
  oi_severity :: string
  oi_reason :: string

record decision =
  strategy :: string
  dec_reason :: reason
  dec_stats :: "stats option"
  dec_issues :: "old_issue list option"

definition stats_of :: "results \<Rightarrow> stats" where
  "stats_of la =
     \<lparr> st_vectorLayers = vectorLayers la, st_rasterLayers = rasterLayers la,
       st_total = vectorLayers la + rasterLayers la \<rparr>"

definition determineExportStrategy :: "old_issue list \<Rightarrow> results option \<Rightarrow> decision" where
  "determineExportStrategy issues layerAnalysis =
     (case layerAnalysis of
        Some la \<Rightarrow>
          (if frameStrategy la = ''vector'' then
             \<lparr> strategy = ''vector'', dec_reason = AllVectorSafe (vectorLayers la),
               dec_stats = Some (stats_of la), dec_issues = None \<rparr>
           else if frameStrategy la = ''raster'' then
             \<lparr> strategy = ''png'', dec_reason = AllRaster (rasterLayers la),
               dec_stats = Some (stats_of la), dec_issues = None \<rparr>
           else if hasCriticalEffects la then
             \<lparr> strategy = ''png'',
               dec_reason = HybridCritical (vectorLayers la) (rasterLayers la),
               dec_stats = Some (stats_of la), dec_issues = None \<rparr>
           else
             \<lparr> strategy = ''vector-with-fallback'',
               dec_reason = HybridFallback (vectorLayers la) (rasterLayers la),
               dec_stats = Some (stats_of la), dec_issues = None \<rparr>)
      | None \<Rightarrow>
          (if length issues = 0 then
             \<lparr> strategy = ''vector'', dec_reason = NoProblems, dec_stats = None,
               dec_issues = None \<rparr>
           else
             (let highSeverityCount = length (filter (\<lambda>i. oi_severity i = ''high'') issues);
                  mediumSeverityCount = length (filter (\<lambda>i. oi_severity i = ''medium'') issues)
              in if 0 < highSeverityCount then
                   \<lparr> strategy = ''png'', dec_reason = CriticalIssues highSeverityCount,
                     dec_stats = None, dec_issues = Some issues \<rparr>
                 else if 3 \<le> mediumSeverityCount then
                   \<lparr> strategy = ''png'', dec_reason = ManyIssues mediumSeverityCount,
                     dec_stats = None, dec_issues = Some issues \<rparr>
                 else
                   \<lparr> strategy = ''vector-with-fallback'',
                     dec_reason = MinorIssues (length issues),
                     dec_stats = None, dec_issues = Some issues \<rparr>)))"

section \<open>Segment planner\<close>

lemma node_size_pos: "0 < size (n :: node)"
  by (cases n) simp

lemma children_size: "nchildren n = Some cs \<Longrightarrow> sum_list (map size cs) < size n"
  by (cases n) (auto simp: size_list_conv_sum_list)

text \<open>
  \<^verbatim>\<open>collectSubtreeNodes\<close> and \<^verbatim>\<open>collectAllNodes\<close> run the same loop over an explicit stack:
  pop the top, record it, push its children last-to-first. The head of the list is the top of
  the stack, so pushing the children in reverse puts them in front, in order.
\<close>

function collect_loop :: "node list \<Rightarrow> node list \<Rightarrow> node list" where
  "collect_loop [] acc = acc"
| "collect_loop (cur # stack) acc =
     collect_loop ((case nchildren cur of None \<Rightarrow> [] | Some cs \<Rightarrow> cs) @ stack) (acc @ [cur])"
  by pat_completeness auto
termination
  by (relation "measure (\<lambda>(stack, acc). sum_list (map size stack))")
     (auto split: option.splits dest: children_size simp: node_size_pos)

definition collectSubtreeNodes :: "node \<Rightarrow> node list" where
  "collectSubtreeNodes n = collect_loop [n] []"

definition collectAllNodes :: "node option \<Rightarrow> node list" where
  "collectAllNodes rt = (case rt of None \<Rightarrow> [] | Some r \<Rightarrow> collect_loop [r] [])"

record segment =
  seg_type :: string
  seg_nodes :: "node list"

text \<open>
  \<^verbatim>\<open>Array.from(new Set(xs))\<close>: the first occurrence of every object is kept, in insertion
  order. Objects are compared by identity, that is by \<^verbatim>\<open>id\<close>.
\<close>

fun unique_from :: "node_id list \<Rightarrow> node list \<Rightarrow> node list" where
  "unique_from seen [] = []"
| "unique_from seen (n # ns) =
     (if nid n \<in> set seen then unique_from seen ns else n # unique_from (nid n # seen) ns)"

definition uniqueNodes :: "node list \<Rightarrow> node list" where
  "uniqueNodes ns = unique_from [] ns"

text \<open>The planner's two mutable variables: \<^verbatim>\<open>segments\<close> and \<^verbatim>\<open>currentVectorNodes\<close>.\<close>

type_synonym plan_state = "segment list \<times> node list"

definition flushVector :: "plan_state \<Rightarrow> plan_state" where
  "flushVector st =
     (case st of (segs, cur) \<Rightarrow>
        if length cur = 0 then (segs, cur)
        else (segs @ [\<lparr>seg_type = ''vector'', seg_nodes = uniqueNodes cur\<rparr>], []))"

fun visit :: "node \<Rightarrow> plan_state \<Rightarrow> plan_state" where
  "visit (Node i nm ty vis effs bm msk fs ss chs) st =
     (let n = Node i nm ty vis effs bm msk fs ss chs in
      if \<not> vis then st
      else if nodeNeedsRaster n then
        (case flushVector st of (segs, cur) \<Rightarrow>
           (segs @ [\<lparr>seg_type = ''raster'', seg_nodes = collectSubtreeNodes n\<rparr>], cur))
      else
        (let st1 = (if nodeHasRenderableSelf n then (fst st, snd st @ [n]) else st)
         in case chs of None \<Rightarrow> st1 | Some cs \<Rightarrow> fold visit cs st1))"

definition buildFrameSegments :: "node option \<Rightarrow> segment list" where
  "buildFrameSegments frame =
     (let st0 = ([], []);
          st1 = (case frame of None \<Rightarrow> st0
                 | Some f \<Rightarrow> (case nchildren f of None \<Rightarrow> st0 | Some cs \<Rightarrow> fold visit cs st0))
      in fst (flushVector st1))"

section \<open>Export results, batching and chunking\<close>

text \<open>
  A byte buffer (\<^verbatim>\<open>Uint8Array\<close>) is a list of 8-bit characters: \<^verbatim>\<open>String.fromCharCode\<close>
  maps a byte to the character with that code, which is the identity on this representation.
  JavaScript numbers that are not byte counts are modelled as reals.
\<close>

type_synonym bytes = string

record frame_info =
  fi_id :: node_id
  fi_name :: string
  fi_width :: real
  fi_height :: real

record frame_est =
  fe_frame :: frame_info
  fe_estimatedBytes :: real

record segment_export =
  se_type :: string
  se_pdfData :: "bytes option"
  se_pngData :: "bytes option"
  se_reason :: "string option"

record export_result =
  er_id :: node_id
  er_name :: string
  er_width :: real
  er_height :: real
  er_pdfData :: "bytes option"
  er_pngData :: "bytes option"
  er_isPng :: "bool option"
  er_reason :: "string option"
  er_layerStats :: "stats option"
  er_segments :: "segment_export list option"
  er_error :: "string option"
  er_skipped :: bool

subsection \<open>Batch planning for raster export (\<^verbatim>\<open>exportToPDF\<close>)\<close>

definition SAFE_MEMORY_LIMIT :: real where
  "SAFE_MEMORY_LIMIT = 400 * 1024 * 1024"

definition BYTES_PER_PIXEL :: real where
  "BYTES_PER_PIXEL = 4"

definition PNG_COMPRESSION_ESTIMATE :: "real \<Rightarrow> real" where
  "PNG_COMPRESSION_ESTIMATE qualityScale =
     (if qualityScale \<ge> 3.0 then 0.50
      else if qualityScale \<ge> 2.0 then 0.45
      else if qualityScale \<ge> 1.5 then 0.35
      else if qualityScale \<ge> 1.0 then 0.30
      else 0.25)"

definition frameMemoryEstimates :: "real \<Rightarrow> frame_info list \<Rightarrow> frame_est list" where
  "frameMemoryEstimates qualityScale orderedFrames =
     map (\<lambda>frame.
            let scaledWidth = fi_width frame * qualityScale;
                scaledHeight = fi_height frame * qualityScale
            in \<lparr> fe_frame = frame,
                 fe_estimatedBytes = scaledWidth * scaledHeight * BYTES_PER_PIXEL
                                       * PNG_COMPRESSION_ESTIMATE qualityScale \<rparr>)
         orderedFrames"

text \<open>
  The batching loop. Its state is (\<^verbatim>\<open>batches\<close>, \<^verbatim>\<open>currentBatch\<close>, \<^verbatim>\<open>currentBatchMemory\<close>); the
  loop runs only when the total estimate exceeds the limit, otherwise all frames are exported
  at once.
\<close>

type_synonym batch_state = "frame_info list list \<times> frame_info list \<times> real"

fun batch_step :: "real \<Rightarrow> frame_est \<Rightarrow> batch_state \<Rightarrow> batch_state" where
  "batch_step limit frameEst (batches, currentBatch, currentBatchMemory) =
     (if currentBatchMemory + fe_estimatedBytes frameEst > limit \<and> length currentBatch > 0
      then (batches @ [currentBatch], [fe_frame frameEst], fe_estimatedBytes frameEst)
      else (batches, currentBatch @ [fe_frame frameEst],
            currentBatchMemory + fe_estimatedBytes frameEst))"

definition planBatches :: "real \<Rightarrow> frame_est list \<Rightarrow> frame_info list list" where
  "planBatches limit ests =
     (case fold (batch_step limit) ests ([], [], 0) of
        (batches, currentBatch, currentBatchMemory) \<Rightarrow>
          if length currentBatch > 0 then batches @ [currentBatch] else batches)"

definition batchPlan :: "real \<Rightarrow> frame_info list \<Rightarrow> frame_info list list option" where
  "batchPlan qualityScale orderedFrames =
     (let ests = frameMemoryEstimates qualityScale orderedFrames;
          totalEstimatedMemory = sum_list (map fe_estimatedBytes ests)
      in if totalEstimatedMemory > SAFE_MEMORY_LIMIT
         then Some (planBatches SAFE_MEMORY_LIMIT ests) else None)"

subsection \<open>Chunking of the export results (\<^verbatim>\<open>performVectorExport\<close>)\<close>

definition MAX_CHUNK_BYTES :: nat where
  "MAX_CHUNK_BYTES = 20 * 1024 * 1024"

definition getByteLength :: "bytes option \<Rightarrow> nat" where
  "getByteLength v = (case v of None \<Rightarrow> 0 | Some b \<Rightarrow> length b)"

definition estimateExportBytes :: "export_result \<Rightarrow> nat" where
  "estimateExportBytes result =
     getByteLength (er_pdfData result) + getByteLength (er_pngData result)
     + (case er_segments result of None \<Rightarrow> 0
        | Some segs \<Rightarrow>
            fold (\<lambda>seg total. total + getByteLength (se_pdfData seg)
                                + getByteLength (se_pngData seg)) segs 0)"

type_synonym chunk_state = "export_result list list \<times> export_result list \<times> nat"

fun chunk_step :: "nat \<Rightarrow> export_result \<Rightarrow> chunk_state \<Rightarrow> chunk_state" where
  "chunk_step limit result (exportChunks, currentChunk, currentBytes) =
     (let size = estimateExportBytes result in
      if length currentChunk > 0 \<and> currentBytes + size > limit
      then (exportChunks @ [currentChunk], [result], size)
      else (exportChunks, currentChunk @ [result], currentBytes + size))"

definition packChunks :: "nat \<Rightarrow> export_result list \<Rightarrow> export_result list list" where
  "packChunks limit successfulExports =
     (case fold (chunk_step limit) successfulExports ([], [], 0) of
        (exportChunks, currentChunk, currentBytes) \<Rightarrow>
          if length currentChunk > 0 then exportChunks @ [currentChunk] else exportChunks)"

section \<open>Output validator\<close>

text \<open>The error and warning messages are templates; the model keeps which one was pushed.\<close>

datatype validation_error = PdfTooSmall nat | InvalidHeader string | ErrorArtifacts
datatype validation_warning = MissingEOF | NoObjects | RepetitiveData

record validation =
  isValid :: bool
  errors :: "validation_error list"
  warnings :: "validation_warning list"

text \<open>\<^verbatim>\<open>hay.includes(needle)\<close> on strings.\<close>

fun str_includes :: "string \<Rightarrow> string \<Rightarrow> bool" where
  "str_includes [] needle = (needle = [])"
| "str_includes (c # cs) needle = (prefix needle (c # cs) \<or> str_includes cs needle)"

text \<open>The number of positions of the sample whose byte equals the byte before it.\<close>

fun count_repeats :: "'a list \<Rightarrow> nat" where
  "count_repeats (x # y # zs) = (if y = x then 1 else 0) + count_repeats (y # zs)"
| "count_repeats _ = 0"

definition validatePDFData :: "bytes option \<Rightarrow> validation" where
  "validatePDFData pdfData =
     (case pdfData of
        None \<Rightarrow> \<lparr> isValid = False, errors = [PdfTooSmall 0], warnings = [] \<rparr>
      | Some d \<Rightarrow>
          if length d < 100 then
            \<lparr> isValid = False, errors = [PdfTooSmall (length d)], warnings = [] \<rparr>
          else
            (let header = take 5 d in
             if \<not> prefix ''%PDF'' header then
               \<lparr> isValid = False, errors = [InvalidHeader header], warnings = [] \<rparr>
             else
               (let tailLength = min 100 (length d);
                    tailStr = drop (length d - tailLength) d;
                    w1 = (if \<not> str_includes tailStr ''%%EOF'' then [MissingEOF] else []);
                    headerLength = min 2000 (length d);
                    headerStr = take headerLength d;
                    hasObj = (str_includes headerStr '' obj''
                              \<or> str_includes headerStr (CHR 0x0A # ''obj''));
                    w2 = (if \<not> hasObj then w1 @ [NoObjects] else w1);
                    artifacts = (str_includes headerStr ''undefined'' \<or> str_includes headerStr ''NaN'');
                    middleStart = length d div 2;
                    sampleSize = min 100 (length d - middleStart);
                    middleSample = take sampleSize (drop middleStart d);
                    repetitionCount = count_repeats middleSample;
                    w3 = (if real repetitionCount > real sampleSize * 0.8
                          then w2 @ [RepetitiveData] else w2)
                in \<lparr> isValid = \<not> artifacts,
                     errors = (if artifacts then [ErrorArtifacts] else []),
                     warnings = w3 \<rparr>)))"

text \<open>A well-formed buffer of 110 bytes.\<close>

definition small_pdf :: bytes where
  "small_pdf = ''%PDF-1.4'' @ CHR 0x0A # ''1 0 obj'' @ replicate 90 (CHR ''x'') @ ''%%EOF''"

section \<open>Scene inspector\<close>

text \<open>
  Functions that climb from a node to its frame follow \<^verbatim>\<open>node.parent\<close>. For them a node is
  given with its chain of parents, which is finite in a scene tree: \<open>p_parent\<close> is \<open>None\<close> at
  the root. Missing numeric properties (\<^verbatim>\<open>x\<close>, \<^verbatim>\<open>width\<close> on a page) are \<open>None\<close>.
\<close>

datatype pnode =
  PNode (p_id: node_id) (p_x: "real option") (p_y: "real option")
        (p_width: "real option") (p_height: "real option") (p_parent: "pnode option")

record bounds =
  b_x :: real
  b_y :: real
  b_width :: real
  b_height :: real

text \<open>\<^verbatim>\<open>v || 0\<close> on an optional number.\<close>

definition or0 :: "real option \<Rightarrow> real" where
  "or0 v = (case v of None \<Rightarrow> 0 | Some r \<Rightarrow> r)"

text \<open>
  The loop shared by \<^verbatim>\<open>getAbsoluteBounds\<close> and \<^verbatim>\<open>getNodeOffsetToFrame\<close>: sum the local offsets
  from the node upwards until the frame (or the root) is reached.
\<close>

fun offset_walk :: "pnode option \<Rightarrow> node_id \<Rightarrow> real \<times> real \<Rightarrow> real \<times> real" where
  "offset_walk None frameId (x, y) = (x, y)"
| "offset_walk (Some (PNode i px py pw ph par)) frameId (x, y) =
     (if i \<noteq> frameId then offset_walk par frameId (x + or0 px, y + or0 py) else (x, y))"

definition getAbsoluteBounds :: "pnode \<Rightarrow> node_id \<Rightarrow> bounds" where
  "getAbsoluteBounds n frameId =
     (case offset_walk (Some n) frameId (0, 0) of
        (x, y) \<Rightarrow> \<lparr> b_x = x, b_y = y, b_width = or0 (p_width n), b_height = or0 (p_height n) \<rparr>)"

definition getNodeOffsetToFrame :: "pnode \<Rightarrow> node_id \<Rightarrow> real \<times> real" where
  "getNodeOffsetToFrame n frameId = offset_walk (Some n) frameId (0, 0)"

text \<open>
  What the host's \<^verbatim>\<open>getRangeBounds\<close> can do: throw, return an array (whose entries may be
  null), return one rectangle, or return null. A node without the method has \<open>None\<close>.
\<close>

datatype range_result =
    RangeThrows string
  | RangeArray "bounds option list"
  | RangeRect bounds
  | RangeNull

record text_node =
  tn_node :: pnode
  tn_getRangeBounds :: "(nat \<Rightarrow> nat \<Rightarrow> range_result) option"

definition positive_rect :: "bounds \<Rightarrow> bool" where
  "positive_rect r = (b_width r > 0 \<and> b_height r > 0)"

definition shift_rect :: "real \<times> real \<Rightarrow> bounds \<Rightarrow> bounds" where
  "shift_rect off r =
     \<lparr> b_x = fst off + b_x r, b_y = snd off + b_y r, b_width = b_width r,
       b_height = b_height r \<rparr>"

definition getTextRangeBounds :: "text_node \<Rightarrow> node_id \<Rightarrow> nat \<Rightarrow> nat \<Rightarrow> bounds list" where
  "getTextRangeBounds tn frameId start end =
     (let fallback = [getAbsoluteBounds (tn_node tn) frameId];
          off = getNodeOffsetToFrame (tn_node tn) frameId
      in case tn_getRangeBounds tn of
           None \<Rightarrow> fallback
         | Some query \<Rightarrow>
             (case query start end of
                RangeThrows msg \<Rightarrow> fallback
              | RangeArray rangeBounds \<Rightarrow>
                  (let rects = map (\<lambda>rect. shift_rect off (the rect))
                                 (filter (\<lambda>rect. rect \<noteq> None \<and> positive_rect (the rect))
                                    rangeBounds)
                   in if length rects > 0 then rects else fallback)
              | RangeRect r \<Rightarrow> (if positive_rect r then [shift_rect off r] else fallback)
              | RangeNull \<Rightarrow> fallback))"

section \<open>Scene mutator\<close>

text \<open>
  The plugin mutates \<^verbatim>\<open>visible\<close>, \<^verbatim>\<open>fills\<close> and \<^verbatim>\<open>strokes\<close> of scene nodes in place. The mutable
  part of the scene is a store from node ids to these three properties; a node object is a
  reference into the store (its id, with its parent chain).
\<close>

record node_props =
  np_visible :: bool
  np_fills :: paints
  np_strokes :: paints

type_synonym scene = "node_id \<Rightarrow> node_props"

text \<open>
  The snapshot of \<^verbatim>\<open>captureNodeState\<close>: three maps keyed by node id. Fills and strokes are
  recorded only for nodes that have the property and whose value is not \<^verbatim>\<open>figma.mixed\<close>.
\<close>

record node_state =
  ns_visibility :: "node_id \<rightharpoonup> bool"
  ns_fills :: "node_id \<rightharpoonup> paint list"
  ns_strokes :: "node_id \<rightharpoonup> paint list"

definition capture_step :: "scene \<Rightarrow> pnode \<Rightarrow> node_state \<Rightarrow> node_state" where
  "capture_step sc n st =
     (let i = p_id n;
          st1 = st\<lparr>ns_visibility := (ns_visibility st)(i \<mapsto> np_visible (sc i))\<rparr>;
          st2 = (case np_fills (sc i) of
                   Paints l \<Rightarrow> st1\<lparr>ns_fills := (ns_fills st1)(i \<mapsto> l)\<rparr> | _ \<Rightarrow> st1)
      in case np_strokes (sc i) of
           Paints l \<Rightarrow> st2\<lparr>ns_strokes := (ns_strokes st2)(i \<mapsto> l)\<rparr> | _ \<Rightarrow> st2)"

definition captureNodeState :: "scene \<Rightarrow> pnode list \<Rightarrow> node_state" where
  "captureNodeState sc nodes =
     fold (capture_step sc) nodes
       \<lparr> ns_visibility = Map.empty, ns_fills = Map.empty, ns_strokes = Map.empty \<rparr>"

definition restore_props :: "node_state \<Rightarrow> node_id \<Rightarrow> node_props \<Rightarrow> node_props" where
  "restore_props st i p =
     (let p1 = (case ns_visibility st i of Some v \<Rightarrow> p\<lparr>np_visible := v\<rparr> | None \<Rightarrow> p);
          p2 = (case ns_fills st i of Some l \<Rightarrow> p1\<lparr>np_fills := Paints l\<rparr> | None \<Rightarrow> p1)
      in case ns_strokes st i of Some l \<Rightarrow> p2\<lparr>np_strokes := Paints l\<rparr> | None \<Rightarrow> p2)"

definition restoreNodeState :: "pnode list \<Rightarrow> node_state \<Rightarrow> scene \<Rightarrow> scene" where
  "restoreNodeState nodes st sc =
     fold (\<lambda>n s. s(p_id n := restore_props st (p_id n) (s (p_id n)))) nodes sc"

text \<open>
  \<^verbatim>\<open>getAncestorChain\<close>: the parents of the node up to, and then including, the stop node.
  Nodes are compared by identity, that is by id.
\<close>

fun ancestor_walk :: "pnode option \<Rightarrow> pnode option \<Rightarrow> pnode list" where
  "ancestor_walk None stopNode = []"
| "ancestor_walk (Some (PNode i px py pw ph par)) stopNode =
     (if map_option p_id stopNode \<noteq> Some i
      then PNode i px py pw ph par # ancestor_walk par stopNode else [])"

definition getAncestorChain :: "pnode \<Rightarrow> pnode option \<Rightarrow> pnode list" where
  "getAncestorChain n stopNode =
     ancestor_walk (p_parent n) stopNode @ (case stopNode of None \<Rightarrow> [] | Some s \<Rightarrow> [s])"

text \<open>\<^verbatim>\<open>'fills' in node && node.fills !== figma.mixed\<close>.\<close>

definition paints_settable :: "paints \<Rightarrow> bool" where
  "paints_settable ps = (case ps of Paints l \<Rightarrow> True | _ \<Rightarrow> False)"

text \<open>
  What \<^verbatim>\<open>applySegmentState\<close> does to one node: it is shown iff it was visible in the snapshot
  and belongs to the segment or is an ancestor of a segment node; its paints are the
  snapshot's if it is a segment node and are emptied otherwise.
\<close>

definition apply_props ::
  "node_state \<Rightarrow> node_id list \<Rightarrow> node_id list \<Rightarrow> node_id \<Rightarrow> node_props \<Rightarrow> node_props" where
  "apply_props st renderSet showSet i p =
     (let originalVisible = (ns_visibility st i \<noteq> Some False);
          p1 = p\<lparr>np_visible := (originalVisible \<and> i \<in> set showSet)\<rparr>;
          p2 = (if paints_settable (np_fills p1) then
                  (if i \<in> set renderSet then
                     (case ns_fills st i of Some l \<Rightarrow> p1\<lparr>np_fills := Paints l\<rparr> | None \<Rightarrow> p1)
                   else p1\<lparr>np_fills := Paints []\<rparr>)
                else p1)
      in if paints_settable (np_strokes p2) then
           (if i \<in> set renderSet then
              (case ns_strokes st i of Some l \<Rightarrow> p2\<lparr>np_strokes := Paints l\<rparr> | None \<Rightarrow> p2)
            else p2\<lparr>np_strokes := Paints []\<rparr>)
         else p2)"

definition applySegmentState ::
  "pnode \<Rightarrow> pnode list \<Rightarrow> pnode list \<Rightarrow> node_state \<Rightarrow> scene \<Rightarrow> scene" where
  "applySegmentState frame nodes segmentNodes st sc =
     (let renderSet = map p_id segmentNodes;
          showSet = concat (map (\<lambda>n. p_id n # map p_id (getAncestorChain n (Some frame)))
                              segmentNodes)
      in fold (\<lambda>n s. s(p_id n := apply_props st renderSet showSet (p_id n) (s (p_id n))))
           nodes sc)"

section \<open>Export paths of one frame (\<^verbatim>\<open>performVectorExport\<close>)\<close>

datatype export_format = PDF | PNG real

type_synonym export_outcome = "string + bytes"

text \<open>
  The host's \<^verbatim>\<open>exportAsync\<close> is outside the plugin. It is a parameter: any function of the
  call's position in the run, the scene at that moment, the exported node and the format, to
  either an error message (the call throws) or a buffer. Every call is appended to a log.
\<close>

type_synonym exporter = "nat \<Rightarrow> scene \<Rightarrow> node_id \<Rightarrow> export_format \<Rightarrow> export_outcome"

type_synonym export_log = "(export_format \<times> export_outcome) list"

definition exportAsync ::
  "exporter \<Rightarrow> scene \<Rightarrow> node_id \<Rightarrow> export_format \<Rightarrow> export_log \<Rightarrow> export_outcome \<times> export_log" where
  "exportAsync ex sc i fmt calls = (let r = ex (length calls) sc i fmt in (r, calls @ [(fmt, r)]))"

text \<open>A planned segment as the export loop uses it: its type and references to its nodes.\<close>

record plan_segment =
  ps_type :: string
  ps_nodes :: "pnode list"

definition base_result :: "frame_info \<Rightarrow> export_result" where
  "base_result frameInfo =
     \<lparr> er_id = fi_id frameInfo, er_name = fi_name frameInfo, er_width = fi_width frameInfo,
       er_height = fi_height frameInfo, er_pdfData = None, er_pngData = None, er_isPng = None,
       er_reason = None, er_layerStats = None, er_segments = None, er_error = None,
       er_skipped = False \<rparr>"

text \<open>
  The segment loop of the layered export (inside the \<^verbatim>\<open>try\<close>): isolate the segment, export the
  frame, push the buffer; an exception leaves the loop with its message.
\<close>

fun export_segments ::
  "exporter \<Rightarrow> pnode \<Rightarrow> pnode list \<Rightarrow> node_state \<Rightarrow> real \<Rightarrow> plan_segment list \<Rightarrow>
   segment_export list \<Rightarrow> scene \<Rightarrow> export_log \<Rightarrow>
   (string + segment_export list) \<times> scene \<times> export_log" where
  "export_segments ex frame nodes st scale [] segmentExports sc calls =
     (Inr segmentExports, sc, calls)"
| "export_segments ex frame nodes st scale (segment # rest) segmentExports sc calls =
     (let sc1 = applySegmentState frame nodes (ps_nodes segment) st sc in
      if ps_type segment = ''raster'' then
        (case exportAsync ex sc1 (p_id frame) (PNG scale) calls of
           (Inl err, calls1) \<Rightarrow> (Inl err, sc1, calls1)
         | (Inr pngData, calls1) \<Rightarrow>
             export_segments ex frame nodes st scale rest
               (segmentExports @ [\<lparr> se_type = ''png'', se_pdfData = None,
                                    se_pngData = Some pngData, se_reason = None \<rparr>])
               sc1 calls1)
      else
        (case exportAsync ex sc1 (p_id frame) PDF calls of
           (Inl err, calls1) \<Rightarrow> (Inl err, sc1, calls1)
         | (Inr pdfData, calls1) \<Rightarrow>
             export_segments ex frame nodes st scale rest
               (segmentExports @ [\<lparr> se_type = ''vector'', se_pdfData = Some pdfData,
                                    se_pngData = None, se_reason = None \<rparr>])
               sc1 calls1))"

text \<open>The optional background pass that precedes the loop.\<close>

definition export_background ::
  "exporter \<Rightarrow> pnode \<Rightarrow> pnode list \<Rightarrow> node_state \<Rightarrow> scene \<Rightarrow> export_log \<Rightarrow>
   (string + segment_export list) \<times> scene \<times> export_log" where
  "export_background ex frame nodes st sc calls =
     (let hasFrameBackground =
            (hasVisiblePaints (np_fills (sc (p_id frame)))
             \<or> hasVisiblePaints (np_strokes (sc (p_id frame))))
      in if hasFrameBackground then
           (let sc1 = applySegmentState frame nodes [frame] st sc in
            case exportAsync ex sc1 (p_id frame) PDF calls of
              (Inl err, calls1) \<Rightarrow> (Inl err, sc1, calls1)
            | (Inr bgPdf, calls1) \<Rightarrow>
                (Inr [\<lparr> se_type = ''vector'', se_pdfData = Some bgPdf, se_pngData = None,
                        se_reason = Some ''frame background'' \<rparr>], sc1, calls1))
         else (Inr [], sc, calls))"

text \<open>
  The layered export of one frame: snapshot, \<^verbatim>\<open>try\<close> (background pass, segment loop, push the
  result), \<^verbatim>\<open>catch\<close> (push a failure entry), \<^verbatim>\<open>finally\<close> (restore the snapshot). The node
  list and the segments are computed by the caller from the frame.
\<close>

definition exportLayered ::
  "exporter \<Rightarrow> real \<Rightarrow> frame_info \<Rightarrow> pnode \<Rightarrow> pnode list \<Rightarrow> plan_segment list \<Rightarrow>
   stats option \<Rightarrow> scene \<Rightarrow> export_log \<Rightarrow> export_result \<times> scene \<times> export_log" where
  "exportLayered ex pngFallbackScale frameInfo frame nodes segments layerStats sc calls =
     (let st = captureNodeState sc nodes;
          (outcome, sc2, calls2) =
            (case export_background ex frame nodes st sc calls of
               (Inl err, sc1, calls1) \<Rightarrow> (Inl err, sc1, calls1)
             | (Inr segmentExports, sc1, calls1) \<Rightarrow>
                 export_segments ex frame nodes st pngFallbackScale segments segmentExports
                   sc1 calls1);
          entry =
            (case outcome of
               Inr segmentExports \<Rightarrow>
                 (base_result frameInfo)
                   \<lparr> er_segments := Some segmentExports, er_layerStats := layerStats \<rparr>
             | Inl err \<Rightarrow>
                 (base_result frameInfo)
                   \<lparr> er_error := Some (''Layered export failed: '' @ err),
                     er_skipped := True \<rparr>)
      in (entry, restoreNodeState nodes st sc2, calls2))"

text \<open>
  The whole-frame vector export with its raster fallback. The code has this block twice
  (for a frame without raster layers, and for a frame whose plan has no raster segment).
\<close>

definition exportVectorWithFallback ::
  "exporter \<Rightarrow> real \<Rightarrow> frame_info \<Rightarrow> pnode \<Rightarrow> stats option \<Rightarrow> scene \<Rightarrow> export_log \<Rightarrow>
   export_result \<times> export_log" where
  "exportVectorWithFallback ex pngFallbackScale frameInfo frame layerStats sc calls =
     (case exportAsync ex sc (p_id frame) PDF calls of
        (Inr pdfData, calls1) \<Rightarrow>
          ((base_result frameInfo)
             \<lparr> er_pdfData := Some pdfData, er_isPng := Some False, er_layerStats := layerStats \<rparr>,
           calls1)
      | (Inl err, calls1) \<Rightarrow>
          (case exportAsync ex sc (p_id frame) (PNG pngFallbackScale) calls1 of
             (Inr pngData, calls2) \<Rightarrow>
               ((base_result frameInfo)
                  \<lparr> er_pngData := Some pngData, er_isPng := Some True,
                    er_reason := Some (''PDF export failed: '' @ err),
                    er_layerStats := layerStats \<rparr>,
                calls2)
           | (Inl pngError, calls2) \<Rightarrow>
               ((base_result frameInfo)
                  \<lparr> er_error := Some (''Both PDF and PNG failed: '' @ err),
                    er_skipped := True \<rparr>,
                calls2)))"

text \<open>The whole-frame raster export of a frame whose layers are all raster.\<close>

definition exportAllRaster ::
  "exporter \<Rightarrow> real \<Rightarrow> frame_info \<Rightarrow> pnode \<Rightarrow> stats option \<Rightarrow> scene \<Rightarrow> export_log \<Rightarrow>
   export_result \<times> export_log" where
  "exportAllRaster ex pngFallbackScale frameInfo frame layerStats sc calls =
     (case exportAsync ex sc (p_id frame) (PNG pngFallbackScale) calls of
        (Inr pngData, calls1) \<Rightarrow>
          ((base_result frameInfo)
             \<lparr> er_pngData := Some pngData, er_isPng := Some True,
               er_reason := Some ''All layers rasterized'', er_layerStats := layerStats \<rparr>,
           calls1)
      | (Inl err, calls1) \<Rightarrow>
          ((base_result frameInfo) \<lparr> er_error := Some err, er_skipped := True \<rparr>, calls1))"

section \<open>Vocabulary for the classifier's properties\<close>

definition effects_of :: "node \<Rightarrow> effect list" where
  "effects_of n = (case neffects n of None \<Rightarrow> [] | Some l \<Rightarrow> l)"

text \<open>The node has a visible effect whose kind is one of \<open>kinds\<close>.\<close>

definition visible_effect_in :: "string list \<Rightarrow> node \<Rightarrow> bool" where
  "visible_effect_in kinds n =
     list_ex (\<lambda>e. not_false (effect_visible e) \<and> effect_type e \<in> set kinds) (effects_of n)"

text \<open>
  The default compositing modes of the host: no blend mode at all, \<^verbatim>\<open>NORMAL\<close>, and
  \<^verbatim>\<open>PASS_THROUGH\<close> (the default of containers).
\<close>

definition default_blend :: "string option \<Rightarrow> bool" where
  "default_blend b = (b = None \<or> b = Some ''NORMAL'' \<or> b = Some ''PASS_THROUGH'')"





text \<open>No counter of the first analysis exceeds the same counter of the second.\<close>

definition counts_le :: "results \<Rightarrow> results \<Rightarrow> bool" where
  "counts_le r r' =
     (totalLayers r \<le> totalLayers r' \<and> vectorLayers r \<le> vectorLayers r'
      \<and> rasterLayers r \<le> rasterLayers r')"

text \<open>A frame blended with \<^verbatim>\<open>MULTIPLY\<close> that holds one plain text.\<close>

definition multiply_frame :: node where
  "multiply_frame =
     Node ''5:1'' ''Overlay'' ''FRAME'' True (Some []) (Some ''MULTIPLY'') False
       (Paints [Paint (Some True) 3]) (Paints [])
       (Some [Node ''5:2'' ''Title'' ''TEXT'' True (Some []) (Some ''NORMAL'') False
                (Paints [Paint (Some True) 0]) (Paints []) None])"

text \<open>
  The shadow scenario: a rectangle with a visible \<^verbatim>\<open>DROP_SHADOW\<close> (and no visible blur), a
  rectangle without effects, both visible, filled, with the default blend mode and not masks;
  and a frame that has no effects, blend mode or mask of its own.
\<close>

definition shadow_rect :: "node \<Rightarrow> bool" where
  "shadow_rect a =
     (ntype a = ''RECTANGLE'' \<and> nvisible a \<and> visible_effect_in [''DROP_SHADOW''] a
      \<and> \<not> visible_effect_in MUST_RASTERIZE_EFFECTS a \<and> default_blend (nblendMode a)
      \<and> \<not> nisMask a \<and> hasVisiblePaints (nfills a) \<and> nchildren a = None)"

definition plain_rect :: "node \<Rightarrow> bool" where
  "plain_rect b =
     (ntype b = ''RECTANGLE'' \<and> nvisible b \<and> effects_of b = []
      \<and> default_blend (nblendMode b) \<and> \<not> nisMask b \<and> hasVisiblePaints (nfills b)
      \<and> nchildren b = None)"

definition plain_frame :: "node \<Rightarrow> bool" where
  "plain_frame f =
     (ntype f = ''FRAME'' \<and> effects_of f = [] \<and> default_blend (nblendMode f) \<and> \<not> nisMask f)"

definition shadow_scene_rect :: node where
  "shadow_scene_rect =
     Node ''1:2'' ''Card'' ''RECTANGLE'' True
       (Some [\<lparr>effect_type = ''DROP_SHADOW'', effect_visible = Some True\<rparr>])
       (Some ''NORMAL'') False (Paints [Paint (Some True) 1]) (Paints []) None"

definition plain_scene_rect :: node where
  "plain_scene_rect =
     Node ''1:3'' ''Box'' ''RECTANGLE'' True (Some []) (Some ''NORMAL'') False
       (Paints [Paint (Some True) 2]) (Paints []) None"

definition shadow_scene_frame :: node where
  "shadow_scene_frame =
     Node ''1:1'' ''Frame 1'' ''FRAME'' True (Some []) (Some ''PASS_THROUGH'') False
       (Paints []) (Paints []) (Some [shadow_scene_rect, plain_scene_rect])"

section \<open>Vocabulary for the planner's properties\<close>





datatype plan_event = Vec node | Ras node


fun step :: "plan_event \<Rightarrow> plan_state \<Rightarrow> plan_state" where
  "step (Vec n) st = (fst st, snd st @ [n])"
| "step (Ras n) st =
     (fst (flushVector st) @ [\<lparr>seg_type = ''raster'', seg_nodes = collectSubtreeNodes n\<rparr>],
      snd (flushVector st))"












section \<open>Vocabulary for the packing property\<close>

text \<open>A batch or chunk respects the budget: non-empty, and within budget unless it is a single oversized item.\<close>

definition within_budget :: "('a \<Rightarrow> 'n::{linorder,monoid_add}) \<Rightarrow> 'n \<Rightarrow> 'a list \<Rightarrow> bool" where
  "within_budget cost B g =
     (g \<noteq> [] \<and> (sum_list (map cost g) \<le> B \<or> (length g = 1 \<and> B < cost (hd g))))"

definition pack_inv :: "('a \<Rightarrow> 'n::{linorder,monoid_add}) \<Rightarrow> 'n \<Rightarrow> 'a list list \<times> 'a list \<times> 'n \<Rightarrow> bool" where
  "pack_inv cost B st = (case st of (done, cur, mem) \<Rightarrow>
      mem = sum_list (map cost cur) \<and> list_all (within_budget cost B) done
      \<and> (cur = [] \<or> within_budget cost B cur))"

text \<open>
  The greedy rule that both loops follow, over any item type and cost function: start a new
  group when the item would push a non-empty group over the budget.
\<close>

fun pack_step :: "('a \<Rightarrow> 'n::{linorder,monoid_add}) \<Rightarrow> 'n \<Rightarrow> 'a \<Rightarrow> 'a list list \<times> 'a list \<times> 'n \<Rightarrow> 'a list list \<times> 'a list \<times> 'n" where
  "pack_step cost B x (done, cur, mem) =
     (if mem + cost x > B \<and> cur \<noteq> [] then (done @ [cur], [x], cost x)
      else (done, cur @ [x], mem + cost x))"

definition pack_flat :: "'a list list \<times> 'a list \<times> 'n \<Rightarrow> 'a list" where
  "pack_flat st = (case st of (done, cur, mem) \<Rightarrow> concat done @ cur)"

definition pack_finish :: "'a list list \<times> 'a list \<times> 'n \<Rightarrow> 'a list list" where
  "pack_finish st = (case st of (done, cur, mem) \<Rightarrow> if cur \<noteq> [] then done @ [cur] else done)"

definition greedy_pack :: "('a \<Rightarrow> 'n::{linorder,monoid_add}) \<Rightarrow> 'n \<Rightarrow> 'a list \<Rightarrow> 'a list list" where
  "greedy_pack cost B xs = pack_finish (fold (pack_step cost B) xs ([], [], 0))"

text \<open>Three frames of 167MB each, and three small export results.\<close>

definition mb :: "real \<Rightarrow> real" where "mb x = x * 1024 * 1024"

definition page :: "string \<Rightarrow> frame_info" where
  "page i = \<lparr> fi_id = i, fi_name = ''Page '' @ i, fi_width = 8000, fi_height = 6000 \<rparr>"

definition three_estimates :: "frame_est list" where
  "three_estimates =
     [\<lparr> fe_frame = page ''1'', fe_estimatedBytes = mb 167 \<rparr>,
      \<lparr> fe_frame = page ''2'', fe_estimatedBytes = mb 167 \<rparr>,
      \<lparr> fe_frame = page ''3'', fe_estimatedBytes = mb 167 \<rparr>]"

definition pdf_result :: "string \<Rightarrow> bytes \<Rightarrow> export_result" where
  "pdf_result i b =
     \<lparr> er_id = i, er_name = ''Page '' @ i, er_width = 100, er_height = 100,
       er_pdfData = Some b, er_pngData = None, er_isPng = Some False, er_reason = None,
       er_layerStats = None, er_segments = None, er_error = None, er_skipped = False \<rparr>"

definition three_results :: "export_result list" where
  "three_results = [pdf_result ''1'' ''abcd'', pdf_result ''2'' ''efghijkl'', pdf_result ''3'' ''mn'']"

section \<open>Vocabulary for the inspector's property\<close>

text \<open>The rectangles the range query yields; none when it is unavailable, throws or returns null.\<close>

definition yielded :: "text_node \<Rightarrow> nat \<Rightarrow> nat \<Rightarrow> bounds list" where
  "yielded tn start end =
     (case tn_getRangeBounds tn of
        None \<Rightarrow> []
      | Some query \<Rightarrow>
          (case query start end of
             RangeThrows msg \<Rightarrow> []
           | RangeArray rs \<Rightarrow> concat (map (\<lambda>r. case r of None \<Rightarrow> [] | Some b \<Rightarrow> [b]) rs)
           | RangeRect r \<Rightarrow> [r]
           | RangeNull \<Rightarrow> []))"

text \<open>
  A text at (10, 20) inside a group at (5, 5) inside frame \<^verbatim>\<open>3:1\<close>. One text answers range
  queries with a good rectangle, a null and a degenerate rectangle; the other throws.
\<close>

definition text_chain :: pnode where
  "text_chain =
     PNode ''3:3'' (Some 10) (Some 20) (Some 80) (Some 12)
       (Some (PNode ''3:2'' (Some 5) (Some 5) (Some 200) (Some 100)
          (Some (PNode ''3:1'' (Some 400) (Some 0) (Some 800) (Some 600)
             (Some (PNode ''0:1'' None None None None None))))))"

definition answering_text :: text_node where
  "answering_text =
     \<lparr> tn_node = text_chain,
       tn_getRangeBounds = Some (\<lambda>s e.
          RangeArray [Some \<lparr>b_x = 1, b_y = 2, b_width = 30, b_height = 10\<rparr>, None,
                      Some \<lparr>b_x = 0, b_y = 0, b_width = 0, b_height = 10\<rparr>]) \<rparr>"

definition throwing_text :: text_node where
  "throwing_text =
     \<lparr> tn_node = text_chain, tn_getRangeBounds = Some (\<lambda>s e. RangeThrows ''not loaded'') \<rparr>"

section \<open>Vocabulary for the mutator's and the export paths' properties\<close>

text \<open>
  \<open>shape_ok p q\<close>: the paints of \<open>p\<close> can still be restored to those of \<open>q\<close> from a snapshot of
  \<open>q\<close>: where \<open>q\<close> has a settable paint list \<open>p\<close> has one too, and elsewhere they agree.
  \<open>isolate_all\<close> runs \<^verbatim>\<open>applySegmentState\<close> once for every selection of a list.
\<close>

definition shape_ok :: "node_props \<Rightarrow> node_props \<Rightarrow> bool" where
  "shape_ok p q =
     ((if paints_settable (np_fills q) then paints_settable (np_fills p)
       else np_fills p = np_fills q)
      \<and> (if paints_settable (np_strokes q) then paints_settable (np_strokes p)
         else np_strokes p = np_strokes q))"

definition isolate_all ::
  "pnode list \<Rightarrow> node_state \<Rightarrow> (pnode \<times> pnode list) list \<Rightarrow> scene \<Rightarrow> scene" where
  "isolate_all nodes st selections sc =
     fold (\<lambda>(frame, segmentNodes) s. applySegmentState frame nodes segmentNodes st s)
       selections sc"

text \<open>
  A log is clean when no call in it threw. \<open>trace_of out cs\<close>: the calls \<open>cs\<close> fit the outcome
  \<open>out\<close>; a success made only successful calls, a failure ends with the call that threw.
\<close>

definition isolated_from :: "scene \<Rightarrow> pnode list \<Rightarrow> scene \<Rightarrow> bool" where
  "isolated_from sc nodes s =
     (\<forall>i. shape_ok (s i) (sc i) \<and> (i \<notin> p_id ` set nodes \<longrightarrow> s i = sc i))"

definition clean :: "export_log \<Rightarrow> bool" where
  "clean cs = list_all (\<lambda>c. \<not> isl (snd c)) cs"

definition trace_of :: "(string + 'a) \<Rightarrow> export_log \<Rightarrow> bool" where
  "trace_of out cs =
     (case out of
        Inr r \<Rightarrow> clean cs
      | Inl err \<Rightarrow> cs \<noteq> [] \<and> snd (last cs) = Inl err \<and> clean (butlast cs))"

text \<open>
  A small scene: a frame with a card and, inside the card, a badge; an exporter that always
  throws and one that throws on its second call; a plan of two segments.
\<close>

definition both_fail :: exporter where
  "both_fail k sc i fmt =
     (case fmt of PDF \<Rightarrow> Inl ''vector export timed out'' | PNG scale \<Rightarrow> Inl ''out of memory'')"

definition cover_frame :: pnode where
  "cover_frame = PNode ''4:1'' (Some 0) (Some 0) (Some 800) (Some 600)
                   (Some (PNode ''0:1'' None None None None None))"

definition cover_info :: frame_info where
  "cover_info = \<lparr> fi_id = ''4:1'', fi_name = ''Cover'', fi_width = 800, fi_height = 600 \<rparr>"

definition red :: paint where "red = Paint (Some True) 1"

definition cover_scene :: scene where
  "cover_scene i =
     (if i = ''4:1'' then \<lparr> np_visible = True, np_fills = Paints [red], np_strokes = Paints [] \<rparr>
      else if i = ''4:2'' then \<lparr> np_visible = True, np_fills = Paints [red], np_strokes = Mixed \<rparr>
      else if i = ''4:3'' then \<lparr> np_visible = False, np_fills = Mixed, np_strokes = NoPaints \<rparr>
      else \<lparr> np_visible = True, np_fills = NoPaints, np_strokes = NoPaints \<rparr>)"

definition card_node :: pnode where
  "card_node = PNode ''4:2'' (Some 10) (Some 10) (Some 100) (Some 50) (Some cover_frame)"

definition badge_node :: pnode where
  "badge_node = PNode ''4:3'' (Some 20) (Some 20) (Some 10) (Some 10) (Some card_node)"

definition cover_nodes :: "pnode list" where
  "cover_nodes = [cover_frame, card_node, badge_node]"

definition second_fails :: exporter where
  "second_fails k sc i fmt = (if k = 1 then Inl ''render failed'' else Inr ''%PDF'')"

definition cover_segments :: "plan_segment list" where
  "cover_segments =
     [\<lparr> ps_type = ''raster'', ps_nodes = [card_node, badge_node] \<rparr>,
      \<lparr> ps_type = ''vector'', ps_nodes = [badge_node] \<rparr>]"

definition failed_run :: "export_result \<times> scene \<times> export_log" where
  "failed_run = exportLayered second_fails 1.5 cover_info cover_frame cover_nodes cover_segments None cover_scene []"

section \<open>Properties of the classifier\<close>

lemma effects_loop_ex:
  "effects_loop es =
     list_ex (\<lambda>e. not_false (effect_visible e) \<and> effect_type e \<in> set RASTERIZE_EFFECTS) es"
  by (induction es) auto




lemma decide_counts [simp]:
  "vectorLayers (decide_strategy r) = vectorLayers r"
  "rasterLayers (decide_strategy r) = rasterLayers r"
  "totalLayers (decide_strategy r) = totalLayers r"
  "hasCriticalEffects (decide_strategy r) = hasCriticalEffects r"
  by (simp_all add: decide_strategy_def)

lemma decide_strategy_cases:
  "frameStrategy (decide_strategy r) =
     (if rasterLayers r = 0 then ''vector'' else if vectorLayers r = 0 then ''raster'' else ''hybrid'')"
  by (simp add: decide_strategy_def)

lemma counts_le_refl: "counts_le r r"
  by (simp add: counts_le_def)

lemma counts_le_trans: "counts_le a b \<Longrightarrow> counts_le b c \<Longrightarrow> counts_le a c"
  by (auto simp: counts_le_def)

lemma counts_le_decide: "counts_le r (decide_strategy r)"
  by (simp add: counts_le_def)

lemma analyze_self_mono: "counts_le r (analyze_self n d r)"
  by (simp add: counts_le_def analyze_self_def Let_def split: prod.splits)

lemma analyze_self_counted:
  assumes "ntype n \<noteq> ''DOCUMENT''" "ntype n \<noteq> ''PAGE''"
  shows "totalLayers (analyze_self n d r) = Suc (totalLayers r)"
    and "vectorLayers (analyze_self n d r) + rasterLayers (analyze_self n d r)
           = Suc (vectorLayers r + rasterLayers r)"
  using assms by (simp_all add: analyze_self_def Let_def split: prod.splits)

lemma fold_mono:
  assumes "\<And>c acc. c \<in> set cs \<Longrightarrow> counts_le acc (f c acc)"
  shows "counts_le r (fold f cs r)"
  using assms
proof (induction cs arbitrary: r)
  case Nil
  show ?case by (simp add: counts_le_refl)
next
  case (Cons c cs)
  have 1: "counts_le r (f c r)" using Cons.prems by simp
  have 2: "counts_le (f c r) (fold f cs (f c r))"
    by (rule Cons.IH) (simp add: Cons.prems)
  show ?case using counts_le_trans[OF 1 2] by simp
qed

lemma analyze_rec_mono: "counts_le r (analyze_rec n d r)"
proof (induction n d r rule: analyze_rec.induct)
  case (1 i nm ty vis effs bm msk fs ss chs depth r)
  let ?n = "Node i nm ty vis effs bm msk fs ss chs"
  let ?r1 = "analyze_self ?n depth r"
  let ?r2 = "case chs of None \<Rightarrow> ?r1
             | Some cs \<Rightarrow> fold (\<lambda>c acc. analyze_rec c (depth + 1) acc) cs ?r1"
  have s: "counts_le r ?r1" by (rule analyze_self_mono)
  have k: "counts_le ?r1 ?r2"
  proof (cases chs)
    case None
    then show ?thesis by (simp add: counts_le_refl)
  next
    case (Some cs)
    have "counts_le ?r1 (fold (\<lambda>c acc. analyze_rec c (depth + 1) acc) cs ?r1)"
      by (rule fold_mono) (use 1 Some in auto)
    then show ?thesis using Some by simp
  qed
  have r2: "counts_le r ?r2" using s k by (rule counts_le_trans)
  have "counts_le r (if depth = 0 then decide_strategy ?r2 else ?r2)"
    using r2 counts_le_trans[OF r2 counts_le_decide] by simp
  then show ?case by (simp add: Let_def)
qed

lemma analyzeFrameLayers_unfold:
  "analyzeFrameLayers n = decide_strategy
     (case nchildren n of None \<Rightarrow> analyze_self n 0 initial_results
      | Some cs \<Rightarrow> fold (\<lambda>c acc. analyze_rec c 1 acc) cs (analyze_self n 0 initial_results))"
  by (cases n) (auto simp: analyzeFrameLayers_def Let_def split: option.splits)

lemma counted_root_positive:
  assumes "ntype n \<noteq> ''DOCUMENT''" "ntype n \<noteq> ''PAGE''"
  shows "0 < totalLayers (analyzeFrameLayers n)"
    and "0 < vectorLayers (analyzeFrameLayers n) + rasterLayers (analyzeFrameLayers n)"
proof -
  let ?r1 = "analyze_self n 0 initial_results"
  let ?r2 = "case nchildren n of None \<Rightarrow> ?r1
             | Some cs \<Rightarrow> fold (\<lambda>c acc. analyze_rec c 1 acc) cs ?r1"
  have 1: "0 < totalLayers ?r1" "0 < vectorLayers ?r1 + rasterLayers ?r1"
    using analyze_self_counted[OF assms, of 0 initial_results] by simp_all
  have 2: "counts_le ?r1 ?r2"
  proof (cases "nchildren n")
    case None
    then show ?thesis by (simp add: counts_le_refl)
  next
    case (Some cs)
    have "counts_le ?r1 (fold (\<lambda>c acc. analyze_rec c 1 acc) cs ?r1)"
      by (rule fold_mono) (rule analyze_rec_mono)
    then show ?thesis using Some by simp
  qed
  have 3: "0 < totalLayers ?r2" "0 < vectorLayers ?r2 + rasterLayers ?r2"
    using 1 2 by (auto simp: counts_le_def)
  show "0 < totalLayers (analyzeFrameLayers n)"
    using 3(1) by (simp add: analyzeFrameLayers_unfold)
  show "0 < vectorLayers (analyzeFrameLayers n) + rasterLayers (analyzeFrameLayers n)"
    using 3(2) by (simp add: analyzeFrameLayers_unfold)
qed

text \<open>
  Claim C3: for every frame, the analysis produced by \<^verbatim>\<open>analyzeFrameLayers\<close> has
  \<^verbatim>\<open>frameStrategy = 'vector'\<close> iff \<^verbatim>\<open>rasterLayers == 0\<close>, \<^verbatim>\<open>'raster'\<close> iff \<^verbatim>\<open>vectorLayers == 0\<close>,
  and \<^verbatim>\<open>'hybrid'\<close> otherwise; the three values are exhaustive, there is no fourth case. The
  frame itself is always counted, so \<^verbatim>\<open>totalLayers\<close> is positive and the two counts are never
  both zero: the case \<^verbatim>\<open>totalLayers == 0\<close> does not arise for a frame.
\<close>

theorem frameStrategy_of_counts:
  assumes "ntype n = ''FRAME''"
  shows "(frameStrategy (analyzeFrameLayers n) = ''vector''
            \<longleftrightarrow> rasterLayers (analyzeFrameLayers n) = 0)
       \<and> (frameStrategy (analyzeFrameLayers n) = ''raster''
            \<longleftrightarrow> vectorLayers (analyzeFrameLayers n) = 0)
       \<and> (frameStrategy (analyzeFrameLayers n) = ''hybrid''
            \<longleftrightarrow> rasterLayers (analyzeFrameLayers n) \<noteq> 0
                  \<and> vectorLayers (analyzeFrameLayers n) \<noteq> 0)
       \<and> frameStrategy (analyzeFrameLayers n) \<in> {''vector'', ''raster'', ''hybrid''}
       \<and> 0 < totalLayers (analyzeFrameLayers n)"
proof -
  obtain r where r: "analyzeFrameLayers n = decide_strategy r"
    using analyzeFrameLayers_unfold by blast
  have t: "ntype n \<noteq> ''DOCUMENT''" "ntype n \<noteq> ''PAGE''" using assms by simp_all
  have p: "0 < vectorLayers r + rasterLayers r"
    using counted_root_positive(2)[OF t] by (simp add: r)
  have s: "frameStrategy (decide_strategy r) =
      (if rasterLayers r = 0 then ''vector''
       else if vectorLayers r = 0 then ''raster'' else ''hybrid'')"
    by (rule decide_strategy_cases)
  have a: "frameStrategy (analyzeFrameLayers n) = ''vector''
            \<longleftrightarrow> rasterLayers (analyzeFrameLayers n) = 0"
    using s by (simp add: r)
  have b: "frameStrategy (analyzeFrameLayers n) = ''raster''
            \<longleftrightarrow> vectorLayers (analyzeFrameLayers n) = 0"
    using s p by (auto simp: r)
  have c: "frameStrategy (analyzeFrameLayers n) = ''hybrid''
            \<longleftrightarrow> rasterLayers (analyzeFrameLayers n) \<noteq> 0
                  \<and> vectorLayers (analyzeFrameLayers n) \<noteq> 0"
    using s by (simp add: r)
  have d: "frameStrategy (analyzeFrameLayers n) \<in> {''vector'', ''raster'', ''hybrid''}"
    using s by (simp add: r)
  have e: "0 < totalLayers (analyzeFrameLayers n)"
    by (rule counted_root_positive(1)[OF t])
  show ?thesis using a b c d e by blast
qed

theorem frameStrategy_of_counts_witness:
  "ntype multiply_frame = ''FRAME''
   \<and> rasterLayers (analyzeFrameLayers multiply_frame) = 1
   \<and> vectorLayers (analyzeFrameLayers multiply_frame) = 1
   \<and> totalLayers (analyzeFrameLayers multiply_frame) = 2
   \<and> frameStrategy (analyzeFrameLayers multiply_frame) = ''hybrid''"
proof -
  have t: "ntype multiply_frame = ''FRAME''"
    by (simp add: multiply_frame_def)
  have c: "rasterLayers (analyzeFrameLayers multiply_frame) = 1
         \<and> vectorLayers (analyzeFrameLayers multiply_frame) = 1
         \<and> totalLayers (analyzeFrameLayers multiply_frame) = 2"
    by (simp add: analyzeFrameLayers_def multiply_frame_def analyze_self_def
        initial_results_def has_effects_def blend_problematic_def PROBLEMATIC_BLEND_MODES_def)
  show ?thesis using frameStrategy_of_counts [OF t] t c by simp
qed

subsection \<open>The shadow scenario\<close>

lemma fold_effect_step_no_must:
  "list_all (\<lambda>e. \<not> (not_false (effect_visible e) \<and> effect_type e \<in> set MUST_RASTERIZE_EFFECTS)) es \<Longrightarrow>
   fst (fold effect_step es (r, c, iss)) = r \<and> fst (snd (fold effect_step es (r, c, iss))) = c"
  by (induction es arbitrary: iss) auto

lemma default_blend_ok: "default_blend b \<Longrightarrow> \<not> blend_problematic b"
  by (auto simp: default_blend_def blend_problematic_def PROBLEMATIC_BLEND_MODES_def)

lemma analyze_self_vector:
  assumes "ntype n \<noteq> ''DOCUMENT''" "ntype n \<noteq> ''PAGE''"
    and "\<not> visible_effect_in MUST_RASTERIZE_EFFECTS n"
    and "default_blend (nblendMode n)" and "\<not> nisMask n"
  shows "vectorLayers (analyze_self n d r) = vectorLayers r + 1
       \<and> rasterLayers (analyze_self n d r) = rasterLayers r
       \<and> hasCriticalEffects (analyze_self n d r) = hasCriticalEffects r"
proof -
  have nb: "\<not> blend_problematic (nblendMode n)" using assms(4) by (rule default_blend_ok)
  show ?thesis
  proof (cases "has_effects (neffects n)")
    case False
    then show ?thesis using assms nb by (simp add: analyze_self_def Let_def)
  next
    case True
    then obtain es where es: "neffects n = Some es" by (cases "neffects n") (auto simp: has_effects_def)
    have "list_all (\<lambda>e. \<not> (not_false (effect_visible e) \<and> effect_type e \<in> set MUST_RASTERIZE_EFFECTS)) es"
      using assms(3) es by (auto simp: visible_effect_in_def effects_of_def list_all_iff list_ex_iff)
    from fold_effect_step_no_must[OF this, of False "hasCriticalEffects r" "[]"]
    obtain iss where f: "fold effect_step es (False, hasCriticalEffects r, []) = (False, hasCriticalEffects r, iss)"
      by (cases "fold effect_step es (False, hasCriticalEffects r, [])") auto
    show ?thesis using assms nb True es f by (simp add: analyze_self_def Let_def)
  qed
qed

lemma leaf_rec:
  assumes "nchildren n = None" "0 < d"
  shows "analyze_rec n d r = analyze_self n d r"
  using assms by (cases n) (auto simp: Let_def)

lemma shadow_rect_vec:
  assumes "shadow_rect a"
  shows "vectorLayers (analyze_rec a 1 r) = vectorLayers r + 1
       \<and> rasterLayers (analyze_rec a 1 r) = rasterLayers r
       \<and> hasCriticalEffects (analyze_rec a 1 r) = hasCriticalEffects r"
proof -
  have "analyze_rec a 1 r = analyze_self a 1 r" using assms by (simp add: leaf_rec shadow_rect_def)
  moreover have "ntype a \<noteq> ''DOCUMENT''" "ntype a \<noteq> ''PAGE''" using assms by (simp_all add: shadow_rect_def)
  ultimately show ?thesis using analyze_self_vector[of a 1 r] assms by (simp add: shadow_rect_def)
qed

lemma plain_rect_vec:
  assumes "plain_rect a"
  shows "vectorLayers (analyze_rec a 1 r) = vectorLayers r + 1
       \<and> rasterLayers (analyze_rec a 1 r) = rasterLayers r
       \<and> hasCriticalEffects (analyze_rec a 1 r) = hasCriticalEffects r"
proof -
  have "analyze_rec a 1 r = analyze_self a 1 r" using assms by (simp add: leaf_rec plain_rect_def)
  moreover have "ntype a \<noteq> ''DOCUMENT''" "ntype a \<noteq> ''PAGE''" using assms by (simp_all add: plain_rect_def)
  moreover have "\<not> visible_effect_in MUST_RASTERIZE_EFFECTS a" using assms by (simp add: plain_rect_def visible_effect_in_def)
  ultimately show ?thesis using analyze_self_vector[of a 1 r] assms by (simp add: plain_rect_def)
qed

lemma plain_frame_vec:
  assumes "plain_frame f"
  shows "vectorLayers (analyze_self f 0 r) = vectorLayers r + 1
       \<and> rasterLayers (analyze_self f 0 r) = rasterLayers r
       \<and> hasCriticalEffects (analyze_self f 0 r) = hasCriticalEffects r"
proof -
  have "ntype f \<noteq> ''DOCUMENT''" "ntype f \<noteq> ''PAGE''" using assms by (simp_all add: plain_frame_def)
  moreover have "\<not> visible_effect_in MUST_RASTERIZE_EFFECTS f" using assms by (simp add: plain_frame_def visible_effect_in_def)
  ultimately show ?thesis using analyze_self_vector[of f 0 r] assms by (simp add: plain_frame_def)
qed

lemma scenario_counts:
  assumes f: "plain_frame f" and a: "shadow_rect a" and b: "plain_rect b"
    and cs: "nchildren f = Some cs" and o: "cs = [a, b] \<or> cs = [b, a]"
  shows "\<exists>r. analyzeFrameLayers f = decide_strategy r \<and> rasterLayers r = 0 \<and> vectorLayers r = 3 \<and> \<not> hasCriticalEffects r"
proof -
  let ?r0 = "analyze_self f 0 initial_results"
  have r0: "vectorLayers ?r0 = 1 \<and> rasterLayers ?r0 = 0 \<and> \<not> hasCriticalEffects ?r0"
    using plain_frame_vec[OF f, of initial_results] by (simp add: initial_results_def)
  from o show "\<exists>r. analyzeFrameLayers f = decide_strategy r \<and> rasterLayers r = 0 \<and> vectorLayers r = 3 \<and> \<not> hasCriticalEffects r"
  proof
    assume "cs = [a, b]"
    then have "analyzeFrameLayers f = decide_strategy (analyze_rec b 1 (analyze_rec a 1 ?r0))"
      using cs by (simp add: analyzeFrameLayers_unfold)
    then show ?thesis
      using r0 shadow_rect_vec[OF a, of ?r0] plain_rect_vec[OF b, of "analyze_rec a 1 ?r0"]
      by (intro exI[of _ "analyze_rec b 1 (analyze_rec a 1 ?r0)"]) simp
  next
    assume "cs = [b, a]"
    then have "analyzeFrameLayers f = decide_strategy (analyze_rec a 1 (analyze_rec b 1 ?r0))"
      using cs by (simp add: analyzeFrameLayers_unfold)
    then show ?thesis
      using r0 plain_rect_vec[OF b, of ?r0] shadow_rect_vec[OF a, of "analyze_rec b 1 ?r0"]
      by (intro exI[of _ "analyze_rec a 1 (analyze_rec b 1 ?r0)"]) simp
  qed
qed


lemma visit_by_selectors:
  "visit n st =
     (if \<not> nvisible n then st
      else if nodeNeedsRaster n then
        (case flushVector st of (segs, cur) \<Rightarrow>
           (segs @ [\<lparr>seg_type = ''raster'', seg_nodes = collectSubtreeNodes n\<rparr>], cur))
      else
        (let st1 = (if nodeHasRenderableSelf n then (fst st, snd st @ [n]) else st)
         in case nchildren n of None \<Rightarrow> st1 | Some cs \<Rightarrow> fold visit cs st1))"
  by (cases n) (auto simp: Let_def)

lemma collect_leaf: "nchildren n = None \<Longrightarrow> collectSubtreeNodes n = [n]"
  by (simp add: collectSubtreeNodes_def)

lemma shadow_rect_raster: "shadow_rect a \<Longrightarrow> nodeNeedsRaster a"
  by (cases "neffects a")
     (auto simp: shadow_rect_def nodeNeedsRaster_def has_effects_def effects_loop_ex
        visible_effect_in_def effects_of_def RASTERIZE_EFFECTS_def SHOULD_RASTERIZE_EFFECTS_def
        list_ex_iff)

lemma plain_rect_vector: "plain_rect b \<Longrightarrow> \<not> nodeNeedsRaster b \<and> nodeHasRenderableSelf b"
  by (cases "neffects b")
     (auto simp: plain_rect_def nodeNeedsRaster_def has_effects_def effects_of_def
        default_blend_ok nodeHasRenderableSelf_def)

lemma visit_shadow:
  "shadow_rect a \<Longrightarrow> visit a st =
     (fst (flushVector st) @ [\<lparr>seg_type = ''raster'', seg_nodes = [a]\<rparr>], snd (flushVector st))"
  by (simp add: visit_by_selectors shadow_rect_raster collect_leaf shadow_rect_def split: prod.splits)

lemma visit_plain:
  "plain_rect b \<Longrightarrow> visit b st = (fst st, snd st @ [b])"
  using plain_rect_vector[of b] by (simp add: visit_by_selectors plain_rect_def)

lemma scenario_segments:
  assumes a: "shadow_rect a" and b: "plain_rect b" and cs: "nchildren f = Some cs"
  shows "cs = [a, b] \<Longrightarrow> buildFrameSegments (Some f) =
           [\<lparr>seg_type = ''raster'', seg_nodes = [a]\<rparr>, \<lparr>seg_type = ''vector'', seg_nodes = [b]\<rparr>]"
    and "cs = [b, a] \<Longrightarrow> buildFrameSegments (Some f) =
           [\<lparr>seg_type = ''vector'', seg_nodes = [b]\<rparr>, \<lparr>seg_type = ''raster'', seg_nodes = [a]\<rparr>]"
  using cs
  by (simp_all add: buildFrameSegments_def visit_shadow[OF a] visit_plain[OF b] flushVector_def
        uniqueNodes_def)

text \<open>
  Claim C1, as stated: for a frame holding a rectangle with a visible \<^verbatim>\<open>DROP_SHADOW\<close> and a
  plain sibling rectangle, the analysis reports \<^verbatim>\<open>hybrid\<close> and the decision is
  \<^verbatim>\<open>vector-with-fallback\<close>. In \<^verbatim>\<open>analyzeFrameLayers\<close> a shadow only records a warning and the
  layer is counted as a vector layer, so no raster layer is counted for this frame.
\<close>

theorem shadow_scenario_counterexample:
  "frameStrategy (analyzeFrameLayers shadow_scene_frame) \<noteq> ''hybrid''
   \<and> strategy (determineExportStrategy [] (Some (analyzeFrameLayers shadow_scene_frame))) \<noteq> ''vector-with-fallback''"
  by (simp add: analyzeFrameLayers_def shadow_scene_frame_def shadow_scene_rect_def plain_scene_rect_def
       analyze_self_def initial_results_def decide_strategy_def has_effects_def not_false_def
       blend_problematic_def PROBLEMATIC_BLEND_MODES_def MUST_RASTERIZE_EFFECTS_def
       SHOULD_RASTERIZE_EFFECTS_def determineExportStrategy_def Let_def)

text \<open>
  Claim C1, amended: for such a frame \<^verbatim>\<open>analyzeFrameLayers\<close> reports
  \<^verbatim>\<open>frameStrategy = 'vector'\<close> with \<^verbatim>\<open>hasCriticalEffects = false\<close> and no raster layer,
  \<^verbatim>\<open>determineExportStrategy\<close> on that analysis decides \<^verbatim>\<open>vector\<close>, and \<^verbatim>\<open>buildFrameSegments\<close>
  yields exactly two segments, one raster segment holding the shadow rectangle and one vector
  segment holding the plain rectangle, in tree order.
\<close>

theorem shadow_scenario:
  assumes f: "plain_frame f" and a: "shadow_rect a" and b: "plain_rect b"
    and cs: "nchildren f = Some cs" and o: "cs = [a, b] \<or> cs = [b, a]"
  shows "frameStrategy (analyzeFrameLayers f) = ''vector''
     \<and> \<not> hasCriticalEffects (analyzeFrameLayers f)
     \<and> rasterLayers (analyzeFrameLayers f) = 0
     \<and> strategy (determineExportStrategy [] (Some (analyzeFrameLayers f))) = ''vector''
     \<and> buildFrameSegments (Some f) =
         (if cs = [a, b]
          then [\<lparr>seg_type = ''raster'', seg_nodes = [a]\<rparr>, \<lparr>seg_type = ''vector'', seg_nodes = [b]\<rparr>]
          else [\<lparr>seg_type = ''vector'', seg_nodes = [b]\<rparr>, \<lparr>seg_type = ''raster'', seg_nodes = [a]\<rparr>])"
proof -
  obtain r where r: "analyzeFrameLayers f = decide_strategy r" "rasterLayers r = 0" "\<not> hasCriticalEffects r"
    using scenario_counts[OF f a b cs o] by blast
  have s: "frameStrategy (analyzeFrameLayers f) = ''vector''"
    using r by (simp add: decide_strategy_def)
  have d: "strategy (determineExportStrategy [] (Some (analyzeFrameLayers f))) = ''vector''"
    using s by (simp add: determineExportStrategy_def)
  have g: "buildFrameSegments (Some f) =
         (if cs = [a, b]
          then [\<lparr>seg_type = ''raster'', seg_nodes = [a]\<rparr>, \<lparr>seg_type = ''vector'', seg_nodes = [b]\<rparr>]
          else [\<lparr>seg_type = ''vector'', seg_nodes = [b]\<rparr>, \<lparr>seg_type = ''raster'', seg_nodes = [a]\<rparr>])"
    using o scenario_segments[OF a b cs] by auto
  show ?thesis using r s d g by (simp add: decide_strategy_def)
qed

theorem shadow_scenario_witness:
  "plain_frame shadow_scene_frame \<and> shadow_rect shadow_scene_rect \<and> plain_rect plain_scene_rect
   \<and> nchildren shadow_scene_frame = Some [shadow_scene_rect, plain_scene_rect]
   \<and> frameStrategy (analyzeFrameLayers shadow_scene_frame) = ''vector''
   \<and> buildFrameSegments (Some shadow_scene_frame) =
        [\<lparr>seg_type = ''raster'', seg_nodes = [shadow_scene_rect]\<rparr>,
         \<lparr>seg_type = ''vector'', seg_nodes = [plain_scene_rect]\<rparr>]"
proof -
  have f: "plain_frame shadow_scene_frame"
    by (simp add: plain_frame_def shadow_scene_frame_def effects_of_def default_blend_def)
  have a: "shadow_rect shadow_scene_rect"
    by (simp add: shadow_rect_def shadow_scene_rect_def visible_effect_in_def effects_of_def
        default_blend_def not_false_def MUST_RASTERIZE_EFFECTS_def hasVisiblePaints_def)
  have b: "plain_rect plain_scene_rect"
    by (simp add: plain_rect_def plain_scene_rect_def effects_of_def default_blend_def
        not_false_def hasVisiblePaints_def)
  have cs: "nchildren shadow_scene_frame = Some [shadow_scene_rect, plain_scene_rect]"
    by (simp add: shadow_scene_frame_def)
  show ?thesis using shadow_scenario [OF f a b cs] f a b cs by simp
qed

section \<open>Properties of the segment planner\<close>











lemma snd_flushVector [simp]: "snd (flushVector st) = []"
  by (cases st) (simp add: flushVector_def)

















section \<open>Properties of batching and chunking\<close>

lemma pack_step_inv:
  "pack_inv cost B st \<Longrightarrow> pack_inv cost B (pack_step cost B x st)"
  by (cases st) (auto simp: pack_inv_def within_budget_def not_less)

lemma pack_step_flat: "pack_flat (pack_step cost B x st) = pack_flat st @ [x]"
  by (cases st) (auto simp: pack_flat_def)

lemma pack_fold_inv:
  "pack_inv cost B st \<Longrightarrow> pack_inv cost B (fold (pack_step cost B) xs st)"
  by (induction xs arbitrary: st) (simp_all add: pack_step_inv)

lemma pack_fold_flat: "pack_flat (fold (pack_step cost B) xs st) = pack_flat st @ xs"
  by (induction xs arbitrary: st) (simp_all add: pack_step_flat)

lemma greedy_pack_partition: "concat (greedy_pack cost B xs) = xs"
proof -
  have "concat (pack_finish st) = pack_flat st" for st :: "'a list list \<times> 'a list \<times> 'b"
    by (cases st) (simp add: pack_finish_def pack_flat_def)
  then show ?thesis
    by (simp add: greedy_pack_def pack_fold_flat) (simp add: pack_flat_def)
qed

lemma greedy_pack_budget: "list_all (within_budget cost B) (greedy_pack cost B xs)"
proof -
  have "pack_inv cost B ([], [], 0)" by (simp add: pack_inv_def)
  then have "pack_inv cost B (fold (pack_step cost B) xs ([], [], 0))" by (rule pack_fold_inv)
  moreover have "pack_inv cost B st \<Longrightarrow> list_all (within_budget cost B) (pack_finish st)" for st
    by (cases st) (auto simp: pack_inv_def pack_finish_def)
  ultimately show ?thesis by (simp add: greedy_pack_def)
qed


lemma batch_fold_generic:
  "fold (batch_step B) ests (map (map fe_frame) done, map fe_frame cur, mem) =
     (case fold (pack_step fe_estimatedBytes B) ests (done, cur, mem) of
        (done', cur', mem') \<Rightarrow> (map (map fe_frame) done', map fe_frame cur', mem'))"
proof (induction ests arbitrary: "done" cur mem)
  case Nil show ?case by simp
next
  case (Cons e ests)
  show ?case
  proof (cases "mem + fe_estimatedBytes e > B \<and> cur \<noteq> []")
    case True
    then show ?thesis using Cons.IH[of "done @ [cur]" "[e]" "fe_estimatedBytes e"] by simp
  next
    case False
    then show ?thesis using Cons.IH[of "done" "cur @ [e]" "mem + fe_estimatedBytes e"] by auto
  qed
qed

lemma planBatches_generic:
  "planBatches B ests = map (map fe_frame) (greedy_pack fe_estimatedBytes B ests)"
proof -
  obtain d c m where f: "fold (pack_step fe_estimatedBytes B) ests ([], [], 0) = (d, c, m)"
    by (cases "fold (pack_step fe_estimatedBytes B) ests ([], [], 0)") auto
  have "fold (batch_step B) ests ([], [], 0) = (map (map fe_frame) d, map fe_frame c, m)"
    using batch_fold_generic[of B ests "[]" "[]" 0] f by simp
  then show ?thesis using f by (simp add: planBatches_def greedy_pack_def pack_finish_def)
qed

lemma chunk_step_generic: "chunk_step C = pack_step estimateExportBytes C"
  by (rule ext, rule ext) (auto simp: Let_def)

lemma packChunks_generic: "packChunks C rs = greedy_pack estimateExportBytes C rs"
  by (simp add: packChunks_def greedy_pack_def pack_finish_def chunk_step_generic
        split: prod.splits)

text \<open>
  Claim C5: for any list of estimates and any budget, the batches planned for raster export
  and the chunks of the export results are an ordered partition of the items (no item is
  split or lost), and every batch or chunk is within the budget unless it consists of a
  single item that alone exceeds the budget. The batches hold the frames of the estimates,
  so the partition is stated on the estimates they come from.
\<close>

theorem greedy_packing_budget:
  "(\<exists>groups. concat groups = ests \<and> map (map fe_frame) groups = planBatches B ests
       \<and> (\<forall>g \<in> set groups. within_budget fe_estimatedBytes B g))
   \<and> concat (packChunks C results) = results
   \<and> (\<forall>c \<in> set (packChunks C results). within_budget estimateExportBytes C c)"
proof -
  let ?groups = "greedy_pack fe_estimatedBytes B ests"
  have "concat ?groups = ests" by (rule greedy_pack_partition)
  moreover have "map (map fe_frame) ?groups = planBatches B ests"
    by (simp add: planBatches_generic)
  moreover have "\<forall>g \<in> set ?groups. within_budget fe_estimatedBytes B g"
    using greedy_pack_budget[of fe_estimatedBytes B ests] by (simp add: list_all_iff)
  moreover have "concat (packChunks C results) = results"
    by (simp add: packChunks_generic greedy_pack_partition)
  moreover have "\<forall>c \<in> set (packChunks C results). within_budget estimateExportBytes C c"
    using greedy_pack_budget[of estimateExportBytes C results]
    by (simp add: packChunks_generic list_all_iff)
  ultimately show ?thesis by blast
qed

theorem greedy_packing_budget_witness:
  "planBatches SAFE_MEMORY_LIMIT three_estimates = [[page ''1'', page ''2''], [page ''3'']]
   \<and> packChunks 6 three_results = [[pdf_result ''1'' ''abcd''], [pdf_result ''2'' ''efghijkl''], [pdf_result ''3'' ''mn'']]
   \<and> within_budget estimateExportBytes 6 [pdf_result ''3'' ''mn'']
   \<and> within_budget estimateExportBytes 6 [pdf_result ''2'' ''efghijkl'']"
proof -
  have a: "planBatches SAFE_MEMORY_LIMIT three_estimates = [[page ''1'', page ''2''], [page ''3'']]"
    by (simp add: planBatches_def three_estimates_def SAFE_MEMORY_LIMIT_def mb_def)
  have e: "estimateExportBytes (pdf_result i b) = length b" for i b
    by (simp add: estimateExportBytes_def pdf_result_def getByteLength_def)
  have b: "packChunks 6 three_results = [[pdf_result ''1'' ''abcd''], [pdf_result ''2'' ''efghijkl''], [pdf_result ''3'' ''mn'']]"
    by (simp add: packChunks_def three_results_def e Let_def)
  show ?thesis using greedy_packing_budget [of three_estimates SAFE_MEMORY_LIMIT 6 three_results] a b by simp
qed

section \<open>Properties of the validator\<close>

lemma str_includes_sublist: "str_includes hay needle = sublist needle hay"
proof (induction hay)
  case Nil show ?case by simp
next
  case (Cons c cs)
  show ?case using Cons by (simp add: sublist_Cons_right)
qed

text \<open>
  Claim C9: \<^verbatim>\<open>validatePDFData\<close> rejects every absent buffer and every buffer shorter than 100
  bytes; it accepts every buffer of at least 100 bytes that starts with \<^verbatim>\<open>%PDF\<close>, has
  \<^verbatim>\<open>%%EOF\<close> among its last 100 bytes and has neither \<^verbatim>\<open>undefined\<close> nor \<^verbatim>\<open>NaN\<close> in its leading
  2000 bytes.
\<close>

theorem validatePDFData_verdict:
  "((buf = None \<or> (\<exists>d. buf = Some d \<and> length d < 100)) \<longrightarrow> \<not> isValid (validatePDFData buf))
   \<and> (100 \<le> length d \<and> prefix ''%PDF'' d
        \<and> sublist ''%%EOF'' (drop (length d - 100) d)
        \<and> \<not> sublist ''undefined'' (take 2000 d) \<and> \<not> sublist ''NaN'' (take 2000 d)
      \<longrightarrow> isValid (validatePDFData (Some d)))"
proof -
  have a: "(buf = None \<or> (\<exists>d. buf = Some d \<and> length d < 100)) \<longrightarrow> \<not> isValid (validatePDFData buf)"
    by (auto simp: validatePDFData_def)
  have b: "isValid (validatePDFData (Some d))"
    if l: "100 \<le> length d" and p: "prefix ''%PDF'' d"
      and u: "\<not> sublist ''undefined'' (take 2000 d)" and n: "\<not> sublist ''NaN'' (take 2000 d)"
  proof -
    have "take 4 (take 5 d) = ''%PDF''" using p l by (auto simp: prefix_def)
    then have h: "prefix ''%PDF'' (take 5 d)" by (metis take_is_prefix)
    have t: "take (min 2000 (length d)) d = take 2000 d" by (simp add: min_def)
    show ?thesis using l h u n
      by (simp add: validatePDFData_def Let_def str_includes_sublist t)
  qed
  show ?thesis using a b by blast
qed

theorem validatePDFData_verdict_witness:
  "\<not> isValid (validatePDFData (Some ''%PDF-1.4''))
   \<and> 100 \<le> length small_pdf \<and> prefix ''%PDF'' small_pdf
   \<and> sublist ''%%EOF'' (drop (length small_pdf - 100) small_pdf)
   \<and> \<not> sublist ''undefined'' (take 2000 small_pdf) \<and> \<not> sublist ''NaN'' (take 2000 small_pdf)
   \<and> isValid (validatePDFData (Some small_pdf))"
proof -
  have h: "100 \<le> length small_pdf \<and> prefix ''%PDF'' small_pdf
        \<and> str_includes (drop (length small_pdf - 100) small_pdf) ''%%EOF''
        \<and> \<not> str_includes (take 2000 small_pdf) ''undefined''
        \<and> \<not> str_includes (take 2000 small_pdf) ''NaN''"
    by code_simp
  show ?thesis
    using validatePDFData_verdict [of "Some ''%PDF-1.4''" small_pdf] h
    by (simp add: str_includes_sublist)
qed

section \<open>Properties of the inspector\<close>

lemma filter_the:
  "map f (map the (filter (\<lambda>r. r \<noteq> None \<and> P (the r)) rs))
   = map f (filter P (concat (map (\<lambda>r. case r of None \<Rightarrow> [] | Some b \<Rightarrow> [b]) rs)))"
  by (induction rs) (auto split: option.splits)

lemma getTextRangeBounds_yielded:
  "getTextRangeBounds tn fid s e =
     (if filter positive_rect (yielded tn s e) = [] then [getAbsoluteBounds (tn_node tn) fid]
      else map (shift_rect (getNodeOffsetToFrame (tn_node tn) fid)) (filter positive_rect (yielded tn s e)))"
proof (cases "tn_getRangeBounds tn")
  case None then show ?thesis by (simp add: getTextRangeBounds_def yielded_def)
next
  case (Some q)
  show ?thesis
  proof (cases "q s e")
    case (RangeArray rs)
    have "map (\<lambda>rect. shift_rect off (the rect)) (filter (\<lambda>rect. rect \<noteq> None \<and> positive_rect (the rect)) rs)
        = map (shift_rect off) (filter positive_rect (concat (map (\<lambda>r. case r of None \<Rightarrow> [] | Some b \<Rightarrow> [b]) rs)))" for off
      using filter_the[of "shift_rect off" positive_rect rs] by (simp add: comp_def)
    then show ?thesis using Some RangeArray
      by (simp add: getTextRangeBounds_def yielded_def Let_def)
  qed (use Some in \<open>simp_all add: getTextRangeBounds_def yielded_def\<close>)
qed

text \<open>
  Claim C10: \<^verbatim>\<open>getTextRangeBounds\<close> never returns an empty list. When the range query is
  unavailable, throws, or yields no rectangle of positive width and height, the result is the
  single rectangle \<^verbatim>\<open>getAbsoluteBounds(node, frameId)\<close>. Otherwise the result is the yielded
  rectangles of positive width and height, each moved by the node's offset to the frame, so
  every returned rectangle has positive width and height.
\<close>

theorem getTextRangeBounds_total:
  "getTextRangeBounds tn fid s e \<noteq> []
   \<and> ((\<forall>r \<in> set (yielded tn s e). \<not> positive_rect r) \<longrightarrow>
        getTextRangeBounds tn fid s e = [getAbsoluteBounds (tn_node tn) fid])
   \<and> ((\<exists>r \<in> set (yielded tn s e). positive_rect r) \<longrightarrow>
        getTextRangeBounds tn fid s e =
          map (shift_rect (getNodeOffsetToFrame (tn_node tn) fid))
              (filter positive_rect (yielded tn s e))
        \<and> (\<forall>b \<in> set (getTextRangeBounds tn fid s e). b_width b > 0 \<and> b_height b > 0))"
proof (cases "filter positive_rect (yielded tn s e) = []")
  case True
  then have "\<forall>r \<in> set (yielded tn s e). \<not> positive_rect r"
    by (simp add: filter_empty_conv)
  then show ?thesis using True by (auto simp: getTextRangeBounds_yielded)
next
  case False
  then obtain r where r: "r \<in> set (yielded tn s e)" "positive_rect r"
    by (auto simp: filter_empty_conv)
  have g: "getTextRangeBounds tn fid s e =
      map (shift_rect (getNodeOffsetToFrame (tn_node tn) fid)) (filter positive_rect (yielded tn s e))"
    using False by (simp add: getTextRangeBounds_yielded)
  have p: "\<forall>b \<in> set (getTextRangeBounds tn fid s e). b_width b > 0 \<and> b_height b > 0"
    unfolding g by (auto simp: shift_rect_def positive_rect_def)
  have n: "getTextRangeBounds tn fid s e \<noteq> []" using False g by simp
  show ?thesis using r g p n by blast
qed

theorem getTextRangeBounds_total_witness:
  "\<lparr>b_x = 1, b_y = 2, b_width = 30, b_height = 10\<rparr> \<in> set (yielded answering_text 0 4)
   \<and> positive_rect \<lparr>b_x = 1, b_y = 2, b_width = 30, b_height = 10\<rparr>
   \<and> getTextRangeBounds answering_text ''3:1'' 0 4
        = [\<lparr>b_x = 16, b_y = 27, b_width = 30, b_height = 10\<rparr>]
   \<and> yielded throwing_text 0 4 = []
   \<and> getTextRangeBounds throwing_text ''3:1'' 0 4
        = [\<lparr>b_x = 15, b_y = 25, b_width = 80, b_height = 12\<rparr>]"
proof -
  have y: "yielded answering_text 0 4 =
      [\<lparr>b_x = 1, b_y = 2, b_width = 30, b_height = 10\<rparr>,
       \<lparr>b_x = 0, b_y = 0, b_width = 0, b_height = 10\<rparr>]"
    by (simp add: yielded_def answering_text_def)
  have p: "positive_rect \<lparr>b_x = 1, b_y = 2, b_width = 30, b_height = 10\<rparr>"
    "\<not> positive_rect \<lparr>b_x = 0, b_y = 0, b_width = 0, b_height = 10\<rparr>"
    by (simp_all add: positive_rect_def)
  have o: "getNodeOffsetToFrame (tn_node answering_text) ''3:1'' = (15, 25)"
    by (simp add: getNodeOffsetToFrame_def answering_text_def text_chain_def or0_def)
  have t: "yielded throwing_text 0 4 = []"
    by (simp add: yielded_def throwing_text_def)
  have a: "getAbsoluteBounds (tn_node throwing_text) ''3:1''
      = \<lparr>b_x = 15, b_y = 25, b_width = 80, b_height = 12\<rparr>"
    by (simp add: getAbsoluteBounds_def throwing_text_def text_chain_def or0_def)
  show ?thesis
    using getTextRangeBounds_total [of answering_text "''3:1''" 0 4]
      getTextRangeBounds_total [of throwing_text "''3:1''" 0 4] y p o t a
    by (simp add: shift_rect_def)
qed

section \<open>Properties of the scene mutator\<close>

lemma capture_fold_vis:
  "ns_visibility (fold (capture_step sc) nodes st) i =
     (if i \<in> p_id ` set nodes then Some (np_visible (sc i)) else ns_visibility st i)"
  by (induction nodes arbitrary: st) (auto simp: capture_step_def Let_def split: paints.splits)

lemma capture_fold_fills:
  "ns_fills (fold (capture_step sc) nodes st) i =
     (if i \<in> p_id ` set nodes then
        (case np_fills (sc i) of Paints l \<Rightarrow> Some l | _ \<Rightarrow> ns_fills st i)
      else ns_fills st i)"
  by (induction nodes arbitrary: st) (auto simp: capture_step_def Let_def split: paints.splits)

lemma capture_fold_strokes:
  "ns_strokes (fold (capture_step sc) nodes st) i =
     (if i \<in> p_id ` set nodes then
        (case np_strokes (sc i) of Paints l \<Rightarrow> Some l | _ \<Rightarrow> ns_strokes st i)
      else ns_strokes st i)"
  by (induction nodes arbitrary: st) (auto simp: capture_step_def Let_def split: paints.splits)

lemma fold_update_outside:
  "i \<notin> p_id ` set nodes \<Longrightarrow>
   fold (\<lambda>n s. s(p_id n := f (p_id n) (s (p_id n)))) nodes s i = s i"
  by (induction nodes arbitrary: s) auto

lemma fold_update_preserves:
  assumes "\<And>j p. P j p \<Longrightarrow> P j (f j p)"
  shows "P i (s i) \<Longrightarrow> P i (fold (\<lambda>n s. s(p_id n := f (p_id n) (s (p_id n)))) nodes s i)"
proof (induction nodes arbitrary: s)
  case Nil then show ?case by simp
next
  case (Cons n nodes)
  let ?s = "s(p_id n := f (p_id n) (s (p_id n)))"
  have "P i (?s i)"
  proof (cases "i = p_id n")
    case True
    have "P i (f i (s i))" using Cons.prems by (rule assms)
    then show ?thesis using True by simp
  next
    case False then show ?thesis using Cons.prems by simp
  qed
  then have "P i (fold (\<lambda>n s. s(p_id n := f (p_id n) (s (p_id n)))) nodes ?s i)"
    by (rule Cons.IH)
  then show ?case by (simp only: fold.simps o_apply)
qed

lemma fold_update_idem:
  assumes "\<And>j p. f j (f j p) = f j p"
  shows "fold (\<lambda>n s. s(p_id n := f (p_id n) (s (p_id n)))) nodes s i =
           (if i \<in> p_id ` set nodes then f i (s i) else s i)"
proof (induction nodes arbitrary: s)
  case Nil show ?case by simp
next
  case (Cons n nodes)
  let ?F = "\<lambda>n s. s(p_id n := f (p_id n) (s (p_id n)))"
  let ?s = "s(p_id n := f (p_id n) (s (p_id n)))"
  have step: "fold ?F (n # nodes) s = fold ?F nodes ?s" by (simp only: fold.simps o_apply)
  have ih: "fold ?F nodes ?s i = (if i \<in> p_id ` set nodes then f i (?s i) else ?s i)"
    by (rule Cons.IH)
  have "(if i \<in> p_id ` set nodes then f i (?s i) else ?s i)
      = (if i \<in> p_id ` set (n # nodes) then f i (s i) else s i)"
    by (cases "i = p_id n") (simp_all add: assms)
  then show ?case unfolding step ih .
qed

lemma shape_ok_refl: "shape_ok p p"
  by (simp add: shape_ok_def)

lemma apply_props_shape: "shape_ok p q \<Longrightarrow> shape_ok (apply_props st rs ss i p) q"
  by (cases "np_fills p"; cases "np_strokes p"; cases "np_fills q"; cases "np_strokes q")
     (auto simp: shape_ok_def apply_props_def paints_settable_def Let_def split: option.splits)

lemma applySegmentState_shape:
  "shape_ok (s i) q \<Longrightarrow> shape_ok (applySegmentState frame nodes seg st s i) q"
  unfolding applySegmentState_def Let_def
  by (rule fold_update_preserves[where P = "\<lambda>j p. shape_ok p q"]) (rule apply_props_shape)

lemma applySegmentState_outside:
  "i \<notin> p_id ` set nodes \<Longrightarrow> applySegmentState frame nodes seg st s i = s i"
  unfolding applySegmentState_def Let_def by (rule fold_update_outside)

lemma isolate_all_shape:
  "shape_ok (s i) q \<Longrightarrow> shape_ok (isolate_all nodes st sels s i) q"
  unfolding isolate_all_def
  by (induction sels arbitrary: s) (auto simp: applySegmentState_shape)

lemma isolate_all_outside:
  "i \<notin> p_id ` set nodes \<Longrightarrow> isolate_all nodes st sels s i = s i"
  unfolding isolate_all_def
  by (induction sels arbitrary: s) (auto simp: applySegmentState_outside)

lemma restore_props_idem: "restore_props st i (restore_props st i p) = restore_props st i p"
  by (simp add: restore_props_def Let_def split: option.splits)

lemma restoreNodeState_at:
  "restoreNodeState nodes st s i =
     (if i \<in> p_id ` set nodes then restore_props st i (s i) else s i)"
  unfolding restoreNodeState_def by (rule fold_update_idem) (rule restore_props_idem)

lemma restore_captured:
  assumes "i \<in> p_id ` set nodes" and "shape_ok p (sc i)"
  shows "restore_props (captureNodeState sc nodes) i p = sc i"
proof -
  let ?st = "captureNodeState sc nodes"
  have v: "ns_visibility ?st i = Some (np_visible (sc i))"
    using assms(1) by (simp add: captureNodeState_def capture_fold_vis)
  have f: "ns_fills ?st i = (case np_fills (sc i) of Paints l \<Rightarrow> Some l | _ \<Rightarrow> None)"
    using assms(1) by (simp add: captureNodeState_def capture_fold_fills split: paints.splits)
  have k: "ns_strokes ?st i = (case np_strokes (sc i) of Paints l \<Rightarrow> Some l | _ \<Rightarrow> None)"
    using assms(1) by (simp add: captureNodeState_def capture_fold_strokes split: paints.splits)
  show ?thesis
    using assms(2) v f k
    by (cases "np_fills (sc i)"; cases "np_strokes (sc i)")
       (auto simp: restore_props_def shape_ok_def paints_settable_def Let_def)
qed

lemma isolate_restore_identity:
  "restoreNodeState nodes (captureNodeState sc nodes)
     (isolate_all nodes (captureNodeState sc nodes) sels sc) = sc"
proof
  fix i
  let ?st = "captureNodeState sc nodes"
  show "restoreNodeState nodes ?st (isolate_all nodes ?st sels sc) i = sc i"
  proof (cases "i \<in> p_id ` set nodes")
    case True
    have "shape_ok (isolate_all nodes ?st sels sc i) (sc i)"
      by (rule isolate_all_shape) (rule shape_ok_refl)
    then show ?thesis using True by (simp add: restoreNodeState_at restore_captured)
  next
    case False
    then show ?thesis by (simp add: restoreNodeState_at isolate_all_outside)
  qed
qed

text \<open>
  Claim C6: for every node list, the snapshot taken from it and every sequence of segment
  selections, isolating any number of times and then restoring leaves every listed node's
  visibility equal to its value before, and its fills and strokes equal to their values
  before whenever they were not mixed at snapshot time.
\<close>

theorem isolate_then_restore:
  "\<forall>n \<in> set nodes.
     np_visible (restoreNodeState nodes (captureNodeState sc nodes)
                  (isolate_all nodes (captureNodeState sc nodes) selections sc) (p_id n))
       = np_visible (sc (p_id n))
     \<and> (np_fills (sc (p_id n)) \<noteq> Mixed \<longrightarrow>
          np_fills (restoreNodeState nodes (captureNodeState sc nodes)
                     (isolate_all nodes (captureNodeState sc nodes) selections sc) (p_id n))
            = np_fills (sc (p_id n)))
     \<and> (np_strokes (sc (p_id n)) \<noteq> Mixed \<longrightarrow>
          np_strokes (restoreNodeState nodes (captureNodeState sc nodes)
                       (isolate_all nodes (captureNodeState sc nodes) selections sc) (p_id n))
            = np_strokes (sc (p_id n)))"
  by (simp add: isolate_restore_identity)

theorem isolate_then_restore_witness:
  "card_node \<in> set cover_nodes \<and> np_fills (cover_scene (p_id card_node)) \<noteq> Mixed
   \<and> np_fills (isolate_all cover_nodes (captureNodeState cover_scene cover_nodes)
        [(cover_frame, [badge_node])] cover_scene (p_id card_node)) = Paints []
   \<and> np_fills (restoreNodeState cover_nodes (captureNodeState cover_scene cover_nodes)
        (isolate_all cover_nodes (captureNodeState cover_scene cover_nodes)
           [(cover_frame, [badge_node])] cover_scene) (p_id card_node)) = Paints [red]"
proof -
  have m: "card_node \<in> set cover_nodes" by (simp add: cover_nodes_def)
  have f: "np_fills (cover_scene (p_id card_node)) = Paints [red]"
    by (simp add: cover_scene_def card_node_def)
  have i: "np_fills (isolate_all cover_nodes (captureNodeState cover_scene cover_nodes)
        [(cover_frame, [badge_node])] cover_scene (p_id card_node)) = Paints []"
    by (simp add: isolate_all_def applySegmentState_def apply_props_def cover_nodes_def
        cover_frame_def card_node_def badge_node_def cover_scene_def paints_settable_def Let_def)
  show ?thesis using isolate_then_restore [of cover_nodes cover_scene "[(cover_frame, [badge_node])]"] m f i
    by auto
qed

section \<open>Properties of the export paths\<close>

lemma isolated_from_refl: "isolated_from sc nodes sc"
  by (simp add: isolated_from_def shape_ok_refl)

lemma isolated_from_apply:
  "isolated_from sc nodes s \<Longrightarrow> isolated_from sc nodes (applySegmentState frame nodes seg st s)"
  by (simp add: isolated_from_def applySegmentState_shape applySegmentState_outside)

lemma restore_isolated:
  assumes "isolated_from sc nodes s"
  shows "restoreNodeState nodes (captureNodeState sc nodes) s = sc"
proof
  fix i
  show "restoreNodeState nodes (captureNodeState sc nodes) s i = sc i"
    using assms by (cases "i \<in> p_id ` set nodes")
      (simp_all add: restoreNodeState_at restore_captured isolated_from_def)
qed

lemma exportAsync_calls:
  "exportAsync ex sc i fmt calls = (r, calls1) \<Longrightarrow> calls1 = calls @ [(fmt, r)]"
  by (auto simp: exportAsync_def Let_def)

lemma trace_of_step:
  assumes "trace_of out cs"
  shows "trace_of out ((fmt, Inr b) # cs)"
proof (cases out)
  case (Inr r) then show ?thesis using assms by (simp add: trace_of_def clean_def)
next
  case (Inl err)
  then show ?thesis using assms by (cases cs) (auto simp: trace_of_def clean_def)
qed

lemma export_segments_trace:
  "export_segments ex frame nodes st scale segs acc s calls = (out, s1, calls1) \<Longrightarrow>
   isolated_from sc nodes s \<Longrightarrow>
   isolated_from sc nodes s1 \<and> (\<exists>new. calls1 = calls @ new \<and> trace_of out new
      \<and> length new \<le> length segs)"
proof (induction segs arbitrary: acc s calls)
  case Nil
  then show ?case by (auto simp: trace_of_def clean_def)
next
  case (Cons seg rest)
  let ?s1 = "applySegmentState frame nodes (ps_nodes seg) st s"
  let ?fmt = "if ps_type seg = ''raster'' then PNG scale else PDF"
  have iso: "isolated_from sc nodes ?s1" using Cons.prems(2) by (rule isolated_from_apply)
  obtain r c1 where e: "exportAsync ex ?s1 (p_id frame) ?fmt calls = (r, c1)"
    by (cases "exportAsync ex ?s1 (p_id frame) ?fmt calls") auto
  have c1: "c1 = calls @ [(?fmt, r)]" using e by (rule exportAsync_calls)
  show ?case
  proof (cases r)
    case (Inl err)
    then have "out = Inl err" "s1 = ?s1" "calls1 = c1"
      using Cons.prems(1) e by (auto simp: Let_def split: if_splits)
    then show ?thesis using iso c1 Inl by (auto simp: trace_of_def clean_def)
  next
    case (Inr b)
    then obtain acc' where
      "export_segments ex frame nodes st scale rest acc' ?s1 c1 = (out, s1, calls1)"
      using Cons.prems(1) e by (auto simp: Let_def split: if_splits)
    from Cons.IH[OF this iso] obtain new where
      n: "isolated_from sc nodes s1" "calls1 = c1 @ new" "trace_of out new"
         "length new \<le> length rest"
      by blast
    have "calls1 = calls @ ((?fmt, r) # new)" using n(2) c1 by simp
    moreover have "trace_of out ((?fmt, r) # new)" using n(3) Inr by (simp add: trace_of_step)
    moreover have "length ((?fmt, r) # new) \<le> length (seg # rest)" using n(4) by simp
    ultimately show ?thesis using n(1) by blast
  qed
qed

lemma export_background_trace:
  "export_background ex frame nodes st s calls = (out, s1, calls1) \<Longrightarrow>
   isolated_from sc nodes s \<Longrightarrow>
   isolated_from sc nodes s1 \<and> (\<exists>new. calls1 = calls @ new \<and> trace_of out new
      \<and> length new \<le> 1)"
proof -
  assume a: "export_background ex frame nodes st s calls = (out, s1, calls1)"
    and i: "isolated_from sc nodes s"
  let ?s1 = "applySegmentState frame nodes [frame] st s"
  have iso: "isolated_from sc nodes ?s1" using i by (rule isolated_from_apply)
  obtain r c1 where e: "exportAsync ex ?s1 (p_id frame) PDF calls = (r, c1)"
    by (cases "exportAsync ex ?s1 (p_id frame) PDF calls") auto
  have c1: "c1 = calls @ [(PDF, r)]" using e by (rule exportAsync_calls)
  show ?thesis
  proof (cases "hasVisiblePaints (np_fills (s (p_id frame))) \<or> hasVisiblePaints (np_strokes (s (p_id frame)))")
    case False
    then have "out = Inr []" "s1 = s" "calls1 = calls"
      using a by (auto simp: export_background_def)
    then show ?thesis using i by (simp add: trace_of_def clean_def)
  next
    case True
    show ?thesis
    proof (cases r)
      case (Inl err)
      then have "out = Inl err" "s1 = ?s1" "calls1 = c1"
        using a e True by (auto simp: export_background_def Let_def)
      then show ?thesis using iso c1 Inl by (auto simp: trace_of_def clean_def)
    next
      case (Inr b)
      then have "\<exists>x. out = Inr x" "s1 = ?s1" "calls1 = c1"
        using a e True by (auto simp: export_background_def Let_def)
      then show ?thesis using iso c1 Inr by (auto simp: trace_of_def clean_def)
    qed
  qed
qed


lemma clean_append [simp]: "clean (a @ b) = (clean a \<and> clean b)"
  by (simp add: clean_def)

lemma trace_of_append: "clean a \<Longrightarrow> trace_of out b \<Longrightarrow> trace_of out (a @ b)"
  by (cases out) (auto simp: trace_of_def butlast_append)

lemma trace_of_Inr_clean: "trace_of (Inr r) cs = clean cs"
  by (simp add: trace_of_def)

lemma exportLayered_summary:
  assumes "exportLayered ex scale fi frame nodes segments layerStats sc calls = (entry, sc', calls')"
  shows "sc' = sc \<and> (\<exists>out new. calls' = calls @ new \<and> trace_of out new
           \<and> length new \<le> 1 + length segments
           \<and> entry = (case out of
                Inr segmentExports \<Rightarrow>
                  (base_result fi)\<lparr> er_segments := Some segmentExports, er_layerStats := layerStats \<rparr>
              | Inl err \<Rightarrow>
                  (base_result fi)\<lparr> er_error := Some (''Layered export failed: '' @ err),
                                     er_skipped := True \<rparr>))"
proof -
  let ?st = "captureNodeState sc nodes"
  obtain o1 s1 c1 where bg: "export_background ex frame nodes ?st sc calls = (o1, s1, c1)"
    by (cases "export_background ex frame nodes ?st sc calls") auto
  from export_background_trace[OF bg isolated_from_refl] obtain new1 where
    b: "isolated_from sc nodes s1" "c1 = calls @ new1" "trace_of o1 new1" "length new1 \<le> 1"
    by blast
  show ?thesis
  proof (cases o1)
    case (Inl err)
    then have "entry = (base_result fi)\<lparr> er_error := Some (''Layered export failed: '' @ err),
                                     er_skipped := True \<rparr>"
       and "sc' = restoreNodeState nodes ?st s1" and "calls' = c1"
      using assms bg by (auto simp: exportLayered_def Let_def)
    moreover have "restoreNodeState nodes ?st s1 = sc" using b(1) by (rule restore_isolated)
    ultimately show ?thesis using b Inl
      by (intro conjI exI[of _ "Inl err"] exI[of _ new1]) auto
  next
    case (Inr acc)
    obtain o2 s2 c2 where sg:
      "export_segments ex frame nodes ?st scale segments acc s1 c1 = (o2, s2, c2)"
      by (cases "export_segments ex frame nodes ?st scale segments acc s1 c1") auto
    from export_segments_trace[OF sg b(1)] obtain new2 where
      g: "isolated_from sc nodes s2" "c2 = c1 @ new2" "trace_of o2 new2"
         "length new2 \<le> length segments"
      by blast
    have "sc' = restoreNodeState nodes ?st s2" and "calls' = c2"
      and en: "entry = (case o2 of
                Inr segmentExports \<Rightarrow>
                  (base_result fi)\<lparr> er_segments := Some segmentExports, er_layerStats := layerStats \<rparr>
              | Inl err \<Rightarrow>
                  (base_result fi)\<lparr> er_error := Some (''Layered export failed: '' @ err),
                                     er_skipped := True \<rparr>)"
      using assms bg sg Inr by (auto simp: exportLayered_def Let_def)
    moreover have "restoreNodeState nodes ?st s2 = sc" using g(1) by (rule restore_isolated)
    moreover have "clean new1" using b(3) Inr by (simp add: trace_of_Inr_clean)
    then have "trace_of o2 (new1 @ new2)" using g(3) by (rule trace_of_append)
    moreover have "c2 = calls @ (new1 @ new2)" using g(2) b(2) by simp
    moreover have "length (new1 @ new2) \<le> 1 + length segments" using b(4) g(4) by simp
    ultimately show ?thesis by blast
  qed
qed

text \<open>
  Claim C7: when some export call of a frame's layered export throws (on the background pass
  or on a segment), that call is the last call made for the frame, so no further segment is
  exported; the scene is restored to what it was before the export; and the frame's entry is
  a failure marker (\<^verbatim>\<open>skipped\<close>, with the error message) that carries no segment buffers and
  no other buffer.
\<close>

theorem layered_export_abort:
  assumes run: "exportLayered ex scale fi frame nodes segments layerStats sc calls
                  = (entry, sc', calls')"
    and threw: "\<not> clean (drop (length calls) calls')"
  shows "\<exists>msg. snd (last calls') = Inl msg
           \<and> clean (butlast (drop (length calls) calls'))
           \<and> er_error entry = Some (''Layered export failed: '' @ msg)
           \<and> er_skipped entry \<and> er_segments entry = None
           \<and> er_pdfData entry = None \<and> er_pngData entry = None
           \<and> sc' = sc"
proof -
  from exportLayered_summary[OF run] obtain out new where
    s: "sc' = sc" "calls' = calls @ new" "trace_of out new"
       "entry = (case out of
                Inr segmentExports \<Rightarrow>
                  (base_result fi)\<lparr> er_segments := Some segmentExports, er_layerStats := layerStats \<rparr>
              | Inl err \<Rightarrow>
                  (base_result fi)\<lparr> er_error := Some (''Layered export failed: '' @ err),
                                     er_skipped := True \<rparr>)"
    by blast
  have n: "drop (length calls) calls' = new" using s(2) by simp
  have nc: "\<not> clean new" using threw n by simp
  then obtain msg where o: "out = Inl msg"
    using s(3) by (cases out) (auto simp: trace_of_def)
  then have t: "new \<noteq> []" "snd (last new) = Inl msg" "clean (butlast new)"
    using s(3) by (auto simp: trace_of_def)
  have "snd (last calls') = Inl msg" using t s(2) by simp
  moreover have "er_error entry = Some (''Layered export failed: '' @ msg)"
      "er_skipped entry" "er_segments entry = None" "er_pdfData entry = None"
      "er_pngData entry = None"
    using s(4) o by (simp_all add: base_result_def)
  ultimately show ?thesis using t(3) n s(1) by auto
qed

theorem layered_export_abort_witness:
  "\<not> clean (drop (length ([] :: export_log)) (snd (snd failed_run)))
   \<and> snd (snd failed_run) = [(PDF, Inr ''%PDF''), (PNG 1.5, Inl ''render failed'')]
   \<and> er_error (fst failed_run) = Some ''Layered export failed: render failed''
   \<and> er_segments (fst failed_run) = None
   \<and> fst (snd failed_run) = cover_scene"
proof -
  have bgv: "hasVisiblePaints (np_fills (cover_scene (p_id cover_frame)))"
    by (simp add: cover_scene_def cover_frame_def hasVisiblePaints_def red_def not_false_def)
  have c: "snd (snd failed_run) = [(PDF, Inr ''%PDF''), (PNG 1.5, Inl ''render failed'')]"
    by (simp add: failed_run_def exportLayered_def export_background_def bgv exportAsync_def
        second_fails_def cover_segments_def Let_def)
  have r: "exportLayered second_fails 1.5 cover_info cover_frame cover_nodes cover_segments None cover_scene []
     = (fst failed_run, fst (snd failed_run), snd (snd failed_run))"
    by (simp add: failed_run_def)
  have t: "\<not> clean (drop (length ([] :: export_log)) (snd (snd failed_run)))"
    by (simp add: c clean_def)
  show ?thesis using layered_export_abort [OF r t] c t by auto
qed

text \<open>
  Claim C8, as stated: when the vector export and the raster fallback both throw, the failure
  reason contains both error messages. The reason is built from the vector export's message
  alone; the fallback's message is only logged.
\<close>

theorem fallback_reason_counterexample:
  "er_skipped (fst (exportVectorWithFallback both_fail 1.5 cover_info cover_frame None cover_scene []))
   \<and> er_error (fst (exportVectorWithFallback both_fail 1.5 cover_info cover_frame None cover_scene []))
       = Some ''Both PDF and PNG failed: vector export timed out''
   \<and> \<not> sublist ''out of memory'' ''Both PDF and PNG failed: vector export timed out''"
proof -
  have "\<not> str_includes ''Both PDF and PNG failed: vector export timed out'' ''out of memory''"
    by code_simp
  then show ?thesis
    by (simp add: exportVectorWithFallback_def exportAsync_def both_fail_def base_result_def
        str_includes_sublist Let_def)
qed

text \<open>
  Claim C8, amended: when the vector export throws and the raster fallback throws as well,
  the frame is marked failed (\<^verbatim>\<open>skipped\<close>, no buffers) and its reason is
  \<^verbatim>\<open>Both PDF and PNG failed: \<close> followed by the vector export's error message; exactly these
  two export calls are made.
\<close>

theorem fallback_reason:
  assumes "ex (length calls) sc (p_id frame) PDF = Inl vectorMessage"
    and "ex (Suc (length calls)) sc (p_id frame) (PNG scale) = Inl rasterMessage"
  shows "er_skipped (fst (exportVectorWithFallback ex scale fi frame layerStats sc calls))
     \<and> er_error (fst (exportVectorWithFallback ex scale fi frame layerStats sc calls))
         = Some (''Both PDF and PNG failed: '' @ vectorMessage)
     \<and> er_pdfData (fst (exportVectorWithFallback ex scale fi frame layerStats sc calls)) = None
     \<and> er_pngData (fst (exportVectorWithFallback ex scale fi frame layerStats sc calls)) = None
     \<and> snd (exportVectorWithFallback ex scale fi frame layerStats sc calls)
         = calls @ [(PDF, Inl vectorMessage), (PNG scale, Inl rasterMessage)]"
  using assms
  by (simp add: exportVectorWithFallback_def exportAsync_def base_result_def Let_def)

theorem fallback_reason_witness:
  "both_fail 0 cover_scene (p_id cover_frame) PDF = Inl ''vector export timed out''
   \<and> both_fail (Suc 0) cover_scene (p_id cover_frame) (PNG 1.5) = Inl ''out of memory''
   \<and> er_error (fst (exportVectorWithFallback both_fail 1.5 cover_info cover_frame None cover_scene []))
       = Some ''Both PDF and PNG failed: vector export timed out''"
proof -
  have a: "both_fail (length []) cover_scene (p_id cover_frame) PDF = Inl ''vector export timed out''"
    by (simp add: both_fail_def)
  have b: "both_fail (Suc (length [])) cover_scene (p_id cover_frame) (PNG 1.5) = Inl ''out of memory''"
    by (simp add: both_fail_def)
  show ?thesis
    using fallback_reason [where ex = both_fail and calls = "[]" and sc = cover_scene and frame = cover_frame
        and scale = "1.5" and fi = cover_info and layerStats = None, OF a b] a b
    by simp
qed

end
